theory Spec2Isabelle
  imports Main "HOL-Library.AList" "HOL-Library.Word"
begin

section \<open>JavaScript strings and numbers used by the bridge\<close>

text \<open>
  The bridge script (\<^verbatim>\<open>index.js\<close>) is modelled function by function. A JavaScript
  string is the list of its UTF-16 code units, so that \<open>length\<close>, \<open>substring\<close> and \<open>indexOf\<close>
  count what the script counts; \<open>str\<close> writes an ASCII literal. A \<open>BigInt\<close> is an
  \<^typ>\<open>int\<close>, \<open>undefined\<close> is \<open>None\<close>.

  \<open>String.prototype.toLowerCase\<close> follows the case tables of Unicode, which are not part of
  the script: every function that calls it takes it as its first argument, named
  \<open>toLowerCase\<close>, and what is proved holds whatever that function is.
\<close>

type_synonym code_unit = "16 word"

type_synonym jsstring = "code_unit list"

abbreviation str :: "string \<Rightarrow> jsstring" where
  "str s \<equiv> map of_char s"

abbreviation COMMA :: code_unit where "COMMA \<equiv> 0x2C"

abbreviation COLON :: code_unit where "COLON \<equiv> 0x3A"

abbreviation SPACE :: code_unit where "SPACE \<equiv> 0x20"

abbreviation PLUS :: code_unit where "PLUS \<equiv> 0x2B"

abbreviation MINUS :: code_unit where "MINUS \<equiv> 0x2D"

abbreviation QUOTE :: code_unit where "QUOTE \<equiv> 0x22"

text \<open>
  The white space that \<open>String.prototype.trim\<close>, \<open>BigInt\<close> and \<open>parseInt\<close> strip: the
  WhiteSpace and LineTerminator code points of ECMAScript, that is TAB, LF, VT, FF, CR,
  SP, NBSP, U+1680, U+2000 to U+200A, LS, PS, U+202F, U+205F, U+3000 and U+FEFF.
\<close>

definition isWhiteSpace :: "code_unit \<Rightarrow> bool" where
  "isWhiteSpace c =
     (c \<in> set [0x0009, 0x000A, 0x000B, 0x000C, 0x000D, 0x0020, 0x00A0, 0x1680,
                0x2000, 0x2001, 0x2002, 0x2003, 0x2004, 0x2005, 0x2006, 0x2007, 0x2008,
                0x2009, 0x200A, 0x2028, 0x2029, 0x202F, 0x205F, 0x3000, 0xFEFF])"

definition trim :: "jsstring \<Rightarrow> jsstring" where
  "trim s = rev (dropWhile isWhiteSpace (rev (dropWhile isWhiteSpace s)))"

text \<open>\<open>s.startsWith(p)\<close>, \<open>s.substring(n)\<close>, \<open>s.substring(0, n)\<close>, \<open>s.indexOf(c)\<close>.\<close>

definition startsWith :: "jsstring \<Rightarrow> jsstring \<Rightarrow> bool" where
  "startsWith s p = (take (length p) s = p)"

definition substring_from :: "jsstring \<Rightarrow> nat \<Rightarrow> jsstring" where
  "substring_from s n = drop n s"

definition substring_to :: "jsstring \<Rightarrow> int \<Rightarrow> jsstring" where
  "substring_to s n = take (nat n) s"

fun indexOf :: "jsstring \<Rightarrow> code_unit \<Rightarrow> int" where
  "indexOf [] c = -1"
| "indexOf (x # xs) c =
     (if x = c then 0 else (let i = indexOf xs c in if i < 0 then -1 else i + 1))"

text \<open>
  \<open>s.split(c)\<close> for a one-character separator: always at least one piece, the pieces
  between the separators, empty pieces kept (\<open>"".split(",")\<close> is \<open>[""]\<close>).
\<close>

fun split :: "code_unit \<Rightarrow> jsstring \<Rightarrow> jsstring list" where
  "split c [] = [[]]"
| "split c (x # xs) =
     (if x = c then [] # split c xs
      else (case split c xs of [] \<Rightarrow> [[x]] | p # ps \<Rightarrow> (x # p) # ps))"

text \<open>
  \<open>s.replace(pat, '')\<close> with a string pattern removes the first occurrence of \<open>pat\<close>
  (the handler calls it as \<open>msg.from.replace('@c.us', '')\<close>).
\<close>

fun remove_first :: "jsstring \<Rightarrow> jsstring \<Rightarrow> jsstring" where
  "remove_first [] pat = []"
| "remove_first (x # xs) pat =
     (if startsWith (x # xs) pat then drop (length pat) (x # xs)
      else x # remove_first xs pat)"

text \<open>Decimal digits: the regular expression \<open>/^\d+$/\<close> and the value of a digit string.\<close>

definition isDigit :: "code_unit \<Rightarrow> bool" where
  "isDigit c = (48 \<le> unat c \<and> unat c \<le> 57)"

definition all_digits :: "jsstring \<Rightarrow> bool" where
  "all_digits s = (s \<noteq> [] \<and> list_all isDigit s)"

definition digit_value :: "code_unit \<Rightarrow> nat" where
  "digit_value c =
     (let n = unat c in
      if 48 \<le> n \<and> n \<le> 57 then n - 48
      else if 97 \<le> n \<and> n \<le> 122 then n - 87
      else if 65 \<le> n \<and> n \<le> 90 then n - 55
      else 36)"

definition radix_value :: "nat \<Rightarrow> jsstring \<Rightarrow> nat" where
  "radix_value r s = foldl (\<lambda>acc c. acc * r + digit_value c) 0 s"

definition all_radix_digits :: "nat \<Rightarrow> jsstring \<Rightarrow> bool" where
  "all_radix_digits r s = (s \<noteq> [] \<and> list_all (\<lambda>c. digit_value c < r) s)"

text \<open>
  \<open>BigInt(s)\<close> on a string (StringToBigInt): white space around is ignored, the empty
  text is \<open>0n\<close>, a decimal literal may carry a sign, the literals with \<open>0x\<close>, \<open>0o\<close>,
  \<open>0b\<close> (the letter in either case) may not, anything else throws a SyntaxError (\<open>None\<close>).
\<close>

definition BigInt :: "jsstring \<Rightarrow> int option" where
  "BigInt s =
     (let t = trim s in
      if t = [] then Some 0
      else if take 2 t = (str ''0x'') \<or> take 2 t = (str ''0X'') then
        (if all_radix_digits 16 (drop 2 t) then Some (int (radix_value 16 (drop 2 t))) else None)
      else if take 2 t = (str ''0o'') \<or> take 2 t = (str ''0O'') then
        (if all_radix_digits 8 (drop 2 t) then Some (int (radix_value 8 (drop 2 t))) else None)
      else if take 2 t = (str ''0b'') \<or> take 2 t = (str ''0B'') then
        (if all_radix_digits 2 (drop 2 t) then Some (int (radix_value 2 (drop 2 t))) else None)
      else if hd t = PLUS then
        (if all_digits (tl t) then Some (int (radix_value 10 (tl t))) else None)
      else if hd t = MINUS then
        (if all_digits (tl t) then Some (- int (radix_value 10 (tl t))) else None)
      else if all_digits t then Some (int (radix_value 10 t))
      else None)"

text \<open>
  \<open>parseInt(s)\<close> with no radix: leading white space and a sign are skipped, \<open>0x\<close> or \<open>0X\<close>
  selects base 16, the longest run of digits is read, and no digit at all is \<open>NaN\<close>
  (\<open>None\<close>). \<open>parseInt(undefined)\<close> reads the text \<open>"undefined"\<close>. The script only tests
  the number for zero and \<open>NaN\<close>, which the integer keeps.
\<close>

definition parseInt :: "jsstring option \<Rightarrow> int option" where
  "parseInt v =
     (let s = dropWhile isWhiteSpace (case v of None \<Rightarrow> (str ''undefined'') | Some x \<Rightarrow> x);
          neg = (s \<noteq> [] \<and> hd s = MINUS);
          s1 = (if s \<noteq> [] \<and> (hd s = PLUS \<or> hd s = MINUS) then tl s else s);
          hex = (take 2 s1 = (str ''0x'') \<or> take 2 s1 = (str ''0X''));
          r = (if hex then 16 else 10);
          s2 = (if hex then drop 2 s1 else s1);
          ds = takeWhile (\<lambda>c. digit_value c < r) s2
      in if ds = [] then None
         else Some ((if neg then -1 else 1) * int (radix_value r ds)))"

text \<open>\<open>String(n)\<close> of a non-negative integer and \<open>n.toString()\<close> of a BigInt.\<close>

fun nat_toString :: "nat \<Rightarrow> jsstring" where
  "nat_toString n =
     (if n < 10 then [of_nat (48 + n)]
      else nat_toString (n div 10) @ [of_nat (48 + n mod 10)])"

declare nat_toString.simps [simp del]


text \<open>Truthiness of an optional string, and \<open>a || b\<close> on optional strings.\<close>

definition truthy :: "jsstring option \<Rightarrow> bool" where
  "truthy v = (case v of None \<Rightarrow> False | Some s \<Rightarrow> s \<noteq> [])"

definition js_or :: "jsstring option \<Rightarrow> jsstring option \<Rightarrow> jsstring option" where
  "js_or a b = (if truthy a then a else b)"

definition js_string :: "jsstring option \<Rightarrow> jsstring" where
  "js_string v = (case v of None \<Rightarrow> (str ''undefined'') | Some s \<Rightarrow> s)"

text \<open>\<open>xs.join(sep)\<close>.\<close>

fun join :: "jsstring \<Rightarrow> jsstring list \<Rightarrow> jsstring" where
  "join sep [] = []"
| "join sep [x] = x"
| "join sep (x # y # ys) = x @ sep @ join sep (y # ys)"

section \<open>Plain objects used as dictionaries\<close>

text \<open>
  \<open>FRIEND_TAG_MAP\<close> is the object literal \<open>{}\<close>: its own properties are kept as an
  association list in insertion order, and a read \<open>FRIEND_TAG_MAP[k]\<close> that finds no own
  property continues on \<open>Object.prototype\<close>. A value read from it is therefore a BigInt
  or an inherited function or object. Writing the key \<open>__proto__\<close> runs the inherited
  setter, which ignores a BigInt and stores nothing.
\<close>

datatype jsval = BigIntVal int | Inherited jsstring

definition Object_prototype_names :: "jsstring list" where
  "Object_prototype_names =
     [(str ''constructor''), (str ''__defineGetter__''), (str ''__defineSetter__''), (str ''hasOwnProperty''),
      (str ''__lookupGetter__''), (str ''__lookupSetter__''), (str ''isPrototypeOf''), (str ''propertyIsEnumerable''),
      (str ''toString''), (str ''valueOf''), (str ''__proto__''), (str ''toLocaleString'')]"

definition object_get :: "(jsstring \<times> int) list \<Rightarrow> jsstring \<Rightarrow> jsval option" where
  "object_get m k =
     (case map_of m k of
        Some v \<Rightarrow> Some (BigIntVal v)
      | None \<Rightarrow> if k \<in> set Object_prototype_names then Some (Inherited k) else None)"

definition object_set :: "(jsstring \<times> int) list \<Rightarrow> jsstring \<Rightarrow> int \<Rightarrow> (jsstring \<times> int) list" where
  "object_set m k v = (if k = (str ''__proto__'') then m else AList.update k v m)"

text \<open>Truthiness of what a read returns: \<open>undefined\<close> and \<open>0n\<close> are falsy.\<close>

definition truthy_val :: "jsval option \<Rightarrow> bool" where
  "truthy_val r = (case r of None \<Rightarrow> False | Some (BigIntVal v) \<Rightarrow> v \<noteq> 0 | Some (Inherited k) \<Rightarrow> True)"

text \<open>
  \<open>Object.keys\<close>: the own keys that are array indices (canonical decimal numerals below
  \<open>2^32 - 1\<close>) in ascending order, then the other keys in insertion order.
\<close>

definition isArrayIndex :: "jsstring \<Rightarrow> bool" where
  "isArrayIndex k =
     (all_digits k \<and> (k = (str ''0'') \<or> hd k \<noteq> 0x30) \<and> radix_value 10 k < 4294967295)"

definition Object_keys :: "(jsstring \<times> int) list \<Rightarrow> jsstring list" where
  "Object_keys m =
     sort_key (radix_value 10) (filter isArrayIndex (map fst m))
     @ filter (\<lambda>k. \<not> isArrayIndex k) (map fst m)"

section \<open>Configuration from the environment\<close>

text \<open>
  \<open>process.env\<close> as read by the script, and whether the session file exists. The
  constants the script derives from it make up the record \<open>config\<close>, under their names
  in the script; the spec calls the first three \<open>idsAll\<close>, \<open>tagToId\<close> and \<open>idToTag\<close>.
  \<open>FRIEND_ID_TO_TAG\<close> is keyed by \<open>id.toString()\<close> in the script and by the integer here.
\<close>

record env =
  env_TELEGRAM_API_ID :: "jsstring option"
  env_TELEGRAM_API_HASH :: "jsstring option"
  env_TELEGRAM_PHONE :: "jsstring option"
  env_FRIEND_TELEGRAM_IDS :: "jsstring option"
  env_FRIEND_TELEGRAM_ID :: "jsstring option"
  env_YOUR_WHATSAPP_NUMBER :: "jsstring option"
  env_MESSAGE_PREFIX :: "jsstring option"
  env_FRIEND_TAGS :: "jsstring option"
  session_file_exists :: bool

record config =
  FRIEND_TELEGRAM_IDS :: "int list"
  FRIEND_TAG_MAP :: "(jsstring \<times> int) list"
  FRIEND_ID_TO_TAG :: "(int \<times> jsstring) list"
  YOUR_WHATSAPP_NUMBER :: jsstring
  MESSAGE_PREFIX :: jsstring

text \<open>
  Every way the start-up stops: the \<open>process.exit(1)\<close> calls, and the two exceptions
  nothing catches (\<open>undefined.split\<close> when no identifier list is set, and \<open>BigInt\<close> of
  a tag identifier that is not an integer literal), on which Node exits with status 1.
\<close>

datatype config_error =
    TagInFriendIds jsstring
  | InvalidFriendId jsstring
  | UncaughtTypeError
  | UncaughtSyntaxError jsstring
  | ApiIdMissing
  | ApiHashMissing
  | PhoneMissing
  | SessionFileMissing
  | NoFriendIds
  | WhatsAppNumberMissing

definition exit_status :: "config_error \<Rightarrow> nat" where
  "exit_status e = 1"

text \<open>The callback of the second \<open>.map\<close> (lines 52 to 80), entry by entry.\<close>

fun parse_ids :: "jsstring list \<Rightarrow> config_error + int list" where
  "parse_ids [] = Inr []"
| "parse_ids (entry # entries) =
     (if COLON \<in> set entry then Inl (TagInFriendIds entry)
      else if \<not> all_digits entry then Inl (InvalidFriendId entry)
      else (case BigInt entry of
              None \<Rightarrow> Inl (UncaughtSyntaxError entry)
            | Some b \<Rightarrow> (case parse_ids entries of Inl e \<Rightarrow> Inl e | Inr bs \<Rightarrow> Inr (b # bs))))"

definition friend_id_entries :: "jsstring \<Rightarrow> jsstring list" where
  "friend_id_entries friendIdsString =
     filter (\<lambda>entry. entry \<noteq> [] \<and> entry \<noteq> (str ''000000000'')) (map trim (split COMMA friendIdsString))"

text \<open>The \<open>forEach\<close> over the pairs of \<open>FRIEND_TAGS\<close> (lines 88 to 95).\<close>

fun parse_tags ::
  "(jsstring \<Rightarrow> jsstring) \<Rightarrow> jsstring list
     \<Rightarrow> (jsstring \<times> int) list \<times> (int \<times> jsstring) list
     \<Rightarrow> config_error + ((jsstring \<times> int) list \<times> (int \<times> jsstring) list)" where
  "parse_tags toLowerCase [] acc = Inr acc"
| "parse_tags toLowerCase (pair # pairs) (tagMap, idToTag) =
     (case map trim (split COLON pair) of
        tag # idText # _ \<Rightarrow>
          (if tag \<noteq> [] \<and> idText \<noteq> [] then
             (case BigInt idText of
                None \<Rightarrow> Inl (UncaughtSyntaxError idText)
              | Some bigIntId \<Rightarrow>
                  parse_tags toLowerCase pairs
                    (object_set tagMap (toLowerCase tag) bigIntId, AList.update bigIntId tag idToTag))
           else parse_tags toLowerCase pairs (tagMap, idToTag))
      | _ \<Rightarrow> parse_tags toLowerCase pairs (tagMap, idToTag))"

definition loadConfig :: "(jsstring \<Rightarrow> jsstring) \<Rightarrow> env \<Rightarrow> config_error + config" where
  "loadConfig toLowerCase e =
     (case js_or (env_FRIEND_TELEGRAM_IDS e) (env_FRIEND_TELEGRAM_ID e) of
        None \<Rightarrow> Inl UncaughtTypeError
      | Some friendIdsString \<Rightarrow>
     (case parse_ids (friend_id_entries friendIdsString) of
        Inl err \<Rightarrow> Inl err
      | Inr ids \<Rightarrow>
     (case (if truthy (env_FRIEND_TAGS e)
            then parse_tags toLowerCase (split COMMA (js_string (env_FRIEND_TAGS e))) ([], [])
            else Inr ([], [])) of
        Inl err \<Rightarrow> Inl err
      | Inr (tagMap, idToTag) \<Rightarrow>
          if (case parseInt (env_TELEGRAM_API_ID e) of None \<Rightarrow> True | Some n \<Rightarrow> n = 0)
            then Inl ApiIdMissing
          else if \<not> truthy (env_TELEGRAM_API_HASH e) then Inl ApiHashMissing
          else if \<not> truthy (env_TELEGRAM_PHONE e) then Inl PhoneMissing
          else if \<not> session_file_exists e then Inl SessionFileMissing
          else if ids = [] then Inl NoFriendIds
          else if \<not> truthy (env_YOUR_WHATSAPP_NUMBER e)
                  \<or> env_YOUR_WHATSAPP_NUMBER e = Some (str ''34000000000'')
            then Inl WhatsAppNumberMissing
          else Inr \<lparr> FRIEND_TELEGRAM_IDS = ids,
                     FRIEND_TAG_MAP = tagMap,
                     FRIEND_ID_TO_TAG = idToTag,
                     YOUR_WHATSAPP_NUMBER = js_string (env_YOUR_WHATSAPP_NUMBER e),
                     MESSAGE_PREFIX = js_string (js_or (env_MESSAGE_PREFIX e) (Some (str ''tg:''))) \<rparr>)))"

section \<open>The transports\<close>

text \<open>
  The two client libraries are outside the script. Each call the handlers await is a
  step on a state \<open>'w\<close> of the outside world that either resolves (\<open>True\<close>) or rejects with
  an \<open>Error\<close> (\<open>False\<close>). The handlers return the calls they made, in order, with their
  outcomes.
\<close>

record 'w transport =
  telegram_sendMessage :: "jsval \<Rightarrow> jsstring \<Rightarrow> 'w \<Rightarrow> bool \<times> 'w"
  msg_reply :: "jsstring \<Rightarrow> 'w \<Rightarrow> bool \<times> 'w"
  whatsapp_sendMessage :: "jsstring \<Rightarrow> jsstring \<Rightarrow> 'w \<Rightarrow> bool \<times> 'w"

datatype event =
    TelegramSend jsval jsstring bool
  | WhatsAppReply jsstring bool
  | WhatsAppSend jsstring jsstring bool

fun is_reply :: "event \<Rightarrow> bool" where
  "is_reply (WhatsAppReply t ok) = True"
| "is_reply _ = False"

fun is_send :: "event \<Rightarrow> bool" where
  "is_send (WhatsAppReply t ok) = False"
| "is_send _ = True"

section \<open>WhatsApp to Telegram: \<open>handleWhatsAppMessage\<close>\<close>

record wa_message =
  msg_from :: jsstring
  msg_fromMe :: bool
  msg_body :: jsstring

text \<open>The emoji of the reply texts, as UTF-16 code units, and the line feed.\<close>

definition warning_sign :: jsstring where
  "warning_sign = [0x26A0, 0xFE0F]"

definition check_mark :: jsstring where
  "check_mark = [0x2705]"

definition cross_mark :: jsstring where
  "cross_mark = [0x274C]"


definition LF :: jsstring where
  "LF = [0x0A]"

definition usage_text :: "config \<Rightarrow> jsstring" where
  "usage_text cfg =
     (let tagHelp = (if Object_keys (FRIEND_TAG_MAP cfg) \<noteq> []
                     then LF @ (str ''   Tags: '') @ join (str '', '') (Object_keys (FRIEND_TAG_MAP cfg)) @ (str '', all'')
                     else [])
      in warning_sign @ (str '' Message is empty.'') @ LF @ LF @ (str ''Usage:'') @ LF @ (str ''   '')
         @ MESSAGE_PREFIX cfg @ (str '' Your message'') @ LF @ (str ''   '')
         @ MESSAGE_PREFIX cfg @ (str ''all Your message'') @ LF @ (str ''   '')
         @ MESSAGE_PREFIX cfg @ (str ''john Your message'') @ tagHelp)"

definition no_message_after_tag_text :: jsstring where
  "no_message_after_tag_text = warning_sign @ (str '' No message provided after tag.'')"

definition message_empty_text :: jsstring where
  "message_empty_text = warning_sign @ (str '' Message is empty.'')"

definition unknown_tag_text :: "config \<Rightarrow> jsstring \<Rightarrow> jsstring" where
  "unknown_tag_text cfg targetTag =
     warning_sign @ (str '' Unknown tag: '') @ [QUOTE] @ targetTag @ [QUOTE] @ LF
     @ (str ''Available: '') @ join (str '', '') (Object_keys (FRIEND_TAG_MAP cfg)) @ (str '', all'')"

definition sent_text :: "jsstring \<Rightarrow> nat \<Rightarrow> jsstring" where
  "sent_text targetTag successCount =
     (let recipients = (if targetTag = (str ''all'') then nat_toString successCount @ (str '' friend(s)'')
                        else targetTag)
      in check_mark @ (str '' Sent to '') @ recipients @ (str '' on Telegram''))"

definition failed_text :: "nat \<Rightarrow> jsstring" where
  "failed_text errorCount =
     warning_sign @ (str '' Failed to send to '') @ nat_toString errorCount @ (str '' friend(s)'')"

definition error_text :: jsstring where
  "error_text = cross_mark @ (str '' Error sending message to Telegram'')"

text \<open>
  Lines 272 to 313: what the handler makes of the body of an owner message. The three
  outcomes that stop with a reply are \<open>EmptyPayload\<close> (line 287, the usage help),
  \<open>NoMessageAfterTag\<close> (line 306) and \<open>MessageEmpty\<close> (line 311).
\<close>

datatype parsed =
    NotACommand
  | EmptyPayload
  | NoMessageAfterTag
  | MessageEmpty
  | Command jsstring jsstring

definition check_message :: "jsstring \<Rightarrow> jsstring \<Rightarrow> parsed" where
  "check_message targetTag messageToSend =
     (if messageToSend = [] then MessageEmpty else Command targetTag messageToSend)"

definition parse_command :: "(jsstring \<Rightarrow> jsstring) \<Rightarrow> config \<Rightarrow> jsstring \<Rightarrow> parsed" where
  "parse_command toLowerCase cfg body =
     (let lowerBody = toLowerCase body;
          lowerPrefix = toLowerCase (MESSAGE_PREFIX cfg)
      in if \<not> startsWith lowerBody lowerPrefix then NotACommand
         else
           (let afterPrefix = trim (substring_from body (length (MESSAGE_PREFIX cfg)))
            in if afterPrefix = [] then EmptyPayload
               else
                 (let firstSpace = indexOf afterPrefix SPACE
                  in if firstSpace > 0 then
                       (let potentialTag = toLowerCase (substring_to afterPrefix firstSpace)
                        in if potentialTag = (str ''all'')
                              \<or> truthy_val (object_get (FRIEND_TAG_MAP cfg) potentialTag)
                           then check_message potentialTag
                                  (trim (substring_from afterPrefix (nat (firstSpace + 1))))
                           else check_message (str ''all'') afterPrefix)
                     else if toLowerCase afterPrefix = (str ''all'')
                             \<or> truthy_val (object_get (FRIEND_TAG_MAP cfg) (toLowerCase afterPrefix))
                       then NoMessageAfterTag
                     else check_message (str ''all'') afterPrefix)))"

text \<open>Lines 315 to 328: from the target to the recipients and their description.\<close>

datatype resolved = Resolved "jsval list" jsstring | UnknownTag

definition resolve :: "config \<Rightarrow> jsstring \<Rightarrow> resolved" where
  "resolve cfg targetTag =
     (if targetTag = (str ''all'') then Resolved (map BigIntVal (FRIEND_TELEGRAM_IDS cfg)) (str ''all friends'')
      else (case object_get (FRIEND_TAG_MAP cfg) targetTag of
              Some v \<Rightarrow> (if truthy_val (Some v)
                         then Resolved [v] (str ''friend '' @ [QUOTE] @ targetTag @ [QUOTE])
                         else UnknownTag)
            | None \<Rightarrow> UnknownTag))"

text \<open>
  Lines 336 to 350: the loop over the recipients. The state is the two counters, the
  calls made so far and the world; a rejected send is caught inside the loop.
\<close>

fun dispatch ::
  "'w transport \<Rightarrow> jsstring \<Rightarrow> jsval list \<Rightarrow> nat \<times> nat \<times> event list \<times> 'w
     \<Rightarrow> nat \<times> nat \<times> event list \<times> 'w" where
  "dispatch tr messageToSend [] st = st"
| "dispatch tr messageToSend (friendId # rest) (successCount, errorCount, calls, w) =
     (case telegram_sendMessage tr friendId messageToSend w of
        (True, w') \<Rightarrow>
          dispatch tr messageToSend rest
            (successCount + 1, errorCount, calls @ [TelegramSend friendId messageToSend True], w')
      | (False, w') \<Rightarrow>
          dispatch tr messageToSend rest
            (successCount, errorCount + 1, calls @ [TelegramSend friendId messageToSend False], w'))"

text \<open>
  A reply is a call that can reject; the last component tells whether the \<open>try\<close> block
  goes on (\<open>True\<close>) or control passes to its \<open>catch\<close> (\<open>False\<close>).
\<close>

definition reply_step :: "'w transport \<Rightarrow> jsstring \<Rightarrow> 'w \<Rightarrow> event list \<times> 'w \<times> bool" where
  "reply_step tr t w = (case msg_reply tr t w of (ok, w') \<Rightarrow> ([WhatsAppReply t ok], w', ok))"

text \<open>Lines 352 to 361: the confirmation.\<close>

definition confirm ::
  "'w transport \<Rightarrow> jsstring \<Rightarrow> nat \<Rightarrow> nat \<Rightarrow> 'w \<Rightarrow> event list \<times> 'w \<times> bool" where
  "confirm tr targetTag successCount errorCount w =
     (case (if successCount > 0 then reply_step tr (sent_text targetTag successCount) w
            else ([], w, True)) of
        (ev1, w1, ok1) \<Rightarrow>
          if \<not> ok1 then (ev1, w1, False)
          else (case (if errorCount > 0 then reply_step tr (failed_text errorCount) w1
                      else ([], w1, True)) of
                  (ev2, w2, ok2) \<Rightarrow> (ev1 @ ev2, w2, ok2)))"

definition try_block ::
  "(jsstring \<Rightarrow> jsstring) \<Rightarrow> config \<Rightarrow> 'w transport \<Rightarrow> wa_message \<Rightarrow> 'w
     \<Rightarrow> event list \<times> 'w \<times> bool" where
  "try_block toLowerCase cfg tr msg w =
     (let fromNumber = remove_first (msg_from msg) (str ''@c.us'')
      in if \<not> msg_fromMe msg \<and> fromNumber \<noteq> YOUR_WHATSAPP_NUMBER cfg then ([], w, True)
         else
           (case parse_command toLowerCase cfg (msg_body msg) of
              NotACommand \<Rightarrow> ([], w, True)
            | EmptyPayload \<Rightarrow> reply_step tr (usage_text cfg) w
            | NoMessageAfterTag \<Rightarrow> reply_step tr no_message_after_tag_text w
            | MessageEmpty \<Rightarrow> reply_step tr message_empty_text w
            | Command targetTag messageToSend \<Rightarrow>
                (case resolve cfg targetTag of
                   UnknownTag \<Rightarrow> reply_step tr (unknown_tag_text cfg targetTag) w
                 | Resolved targetFriendIds targetDescription \<Rightarrow>
                     (case dispatch tr messageToSend targetFriendIds (0, 0, [], w) of
                        (successCount, errorCount, calls, w1) \<Rightarrow>
                          (case confirm tr targetTag successCount errorCount w1 of
                             (ev, w2, ok) \<Rightarrow> (calls @ ev, w2, ok))))))"

definition handleWhatsAppMessage ::
  "(jsstring \<Rightarrow> jsstring) \<Rightarrow> config \<Rightarrow> 'w transport \<Rightarrow> wa_message \<Rightarrow> 'w
     \<Rightarrow> event list \<times> 'w" where
  "handleWhatsAppMessage toLowerCase cfg tr msg w =
     (case try_block toLowerCase cfg tr msg w of
        (ev, w1, True) \<Rightarrow> (ev, w1)
      | (ev, w1, False) \<Rightarrow>
          (case msg_reply tr error_text w1 of (ok, w2) \<Rightarrow> (ev @ [WhatsAppReply error_text ok], w2)))"

text \<open>
  Lines 375 and 376: the script registers the handler on the events \<open>message\<close> and
  \<open>message_create\<close> of the WhatsApp client (its other listeners only log). Which events
  the client emits for one message is the library's matter; the handler runs once for
  each emitted event it is registered on.
\<close>

datatype wa_event =
    Ev_qr
  | Ev_authenticated
  | Ev_ready
  | Ev_auth_failure
  | Ev_disconnected
  | Ev_message
  | Ev_message_create

definition handleWhatsAppMessage_events :: "wa_event list" where
  "handleWhatsAppMessage_events = [Ev_message, Ev_message_create]"

definition handler_runs :: "wa_event list \<Rightarrow> nat" where
  "handler_runs emitted = length (filter (\<lambda>ev. ev \<in> set handleWhatsAppMessage_events) emitted)"

section \<open>Telegram to WhatsApp: the handler of \<open>setupTelegramForwarding\<close>\<close>








section \<open>Worked examples and auxiliary notions\<close>

text \<open>
  The lower-casing passed to the functions in the worked examples, and only there: no
  theorem about all inputs uses it. On the strings of the examples, which are made of
  ASCII characters, U+0130 (capital I with dot above) and U+0307 (combining dot above),
  it is \<open>String.prototype.toLowerCase\<close>: the letters A to Z go to a to z, U+0130 goes to
  the two code units U+0069 U+0307, and the other code units of these strings stay.
\<close>

definition toLowerCase_sample :: "jsstring \<Rightarrow> jsstring" where
  "toLowerCase_sample s =
     concat (map (\<lambda>c. if 65 \<le> unat c \<and> unat c \<le> 90 then [c + 0x20]
                       else if c = 0x0130 then [0x0069, 0x0307]
                       else [c]) s)"

text \<open>
  A transport that keeps a record: it behaves as the transport it wraps, and adds every
  call it receives, with the arguments and the outcome, to a list kept beside the world.
  What the handlers did to the outside is read off this list, not off what they return.
\<close>

definition recorded :: "'w transport \<Rightarrow> ('w \<times> event list) transport" where
  "recorded tr =
     \<lparr> telegram_sendMessage =
         (\<lambda>d m (w, r). case telegram_sendMessage tr d m w of
                          (ok, w') \<Rightarrow> (ok, (w', r @ [TelegramSend d m ok]))),
       msg_reply =
         (\<lambda>t (w, r). case msg_reply tr t w of
                        (ok, w') \<Rightarrow> (ok, (w', r @ [WhatsAppReply t ok]))),
       whatsapp_sendMessage =
         (\<lambda>a t (w, r). case whatsapp_sendMessage tr a t w of
                          (ok, w') \<Rightarrow> (ok, (w', r @ [WhatsAppSend a t ok]))) \<rparr>"

text \<open>
  The dispatcher in the words of the spec: one send attempt for each destination, in
  order, whatever the outcome of the attempts before; the result is one entry for each
  destination with the outcome of its attempt.
\<close>

fun send_each :: "'w transport \<Rightarrow> jsstring \<Rightarrow> jsval list \<Rightarrow> 'w \<Rightarrow> (jsval \<times> bool) list \<times> 'w" where
  "send_each tr payload [] w = ([], w)"
| "send_each tr payload (d # ds) w =
     (case telegram_sendMessage tr d payload w of
        (ok, w1) \<Rightarrow> (case send_each tr payload ds w1 of (rs, w2) \<Rightarrow> ((d, ok) # rs, w2)))"

definition forward_result :: "jsstring \<Rightarrow> jsval \<times> bool \<Rightarrow> event" where
  "forward_result payload r = TelegramSend (fst r) payload (snd r)"

text \<open>
  The identifiers that the pairs of \<open>FRIEND_TAGS\<close> name: a pair names one when it has
  a tag, a colon and an integer literal.
\<close>

definition pair_id :: "jsstring \<Rightarrow> int option" where
  "pair_id pair =
     (case map trim (split COLON pair) of
        tag # idText # _ \<Rightarrow> (if tag \<noteq> [] \<and> idText \<noteq> [] then BigInt idText else None)
      | _ \<Rightarrow> None)"

definition tag_list_ids :: "env \<Rightarrow> int list" where
  "tag_list_ids e =
     (if truthy (env_FRIEND_TAGS e)
      then List.map_filter pair_id (split COMMA (js_string (env_FRIEND_TAGS e)))
      else [])"

text \<open>A complete environment and the constants it gives, for the worked examples.\<close>

definition example_env :: "jsstring \<Rightarrow> jsstring option \<Rightarrow> env" where
  "example_env ids tags =
     \<lparr> env_TELEGRAM_API_ID = Some (str ''12345''),
       env_TELEGRAM_API_HASH = Some (str ''0123456789abcdef''),
       env_TELEGRAM_PHONE = Some (str ''+34600000001''),
       env_FRIEND_TELEGRAM_IDS = Some ids,
       env_FRIEND_TELEGRAM_ID = None,
       env_YOUR_WHATSAPP_NUMBER = Some (str ''34600000001''),
       env_MESSAGE_PREFIX = None,
       env_FRIEND_TAGS = tags,
       session_file_exists = True \<rparr>"

definition example_config :: "int list \<Rightarrow> (jsstring \<times> int) list \<Rightarrow> (int \<times> jsstring) list \<Rightarrow> config" where
  "example_config ids tagMap idToTag =
     \<lparr> FRIEND_TELEGRAM_IDS = ids,
       FRIEND_TAG_MAP = tagMap,
       FRIEND_ID_TO_TAG = idToTag,
       YOUR_WHATSAPP_NUMBER = (str ''34600000001''),
       MESSAGE_PREFIX = (str ''tg:'') \<rparr>"

text \<open>What a list of calls says about the sends to Telegram.\<close>

fun telegram_target :: "event \<Rightarrow> jsval list" where
  "telegram_target (TelegramSend d m ok) = [d]"
| "telegram_target _ = []"

fun delivered :: "event \<Rightarrow> bool" where
  "delivered (TelegramSend d m ok) = ok"
| "delivered _ = False"

fun failed :: "event \<Rightarrow> bool" where
  "failed (TelegramSend d m ok) = (\<not> ok)"
| "failed _ = False"

text \<open>
  Two transports for the worked examples, with the number of calls made so far as the
  world: one on which every call resolves, and one whose second Telegram send rejects.
\<close>

definition all_calls_resolve :: "nat transport" where
  "all_calls_resolve =
     \<lparr> telegram_sendMessage = (\<lambda>d m n. (True, Suc n)),
       msg_reply = (\<lambda>t n. (True, Suc n)),
       whatsapp_sendMessage = (\<lambda>a t n. (True, Suc n)) \<rparr>"

definition second_send_rejects :: "nat transport" where
  "second_send_rejects =
     \<lparr> telegram_sendMessage = (\<lambda>d m n. (n \<noteq> 1, Suc n)),
       msg_reply = (\<lambda>t n. (True, Suc n)),
       whatsapp_sendMessage = (\<lambda>a t n. (True, Suc n)) \<rparr>"

definition owner_message :: "jsstring \<Rightarrow> wa_message" where
  "owner_message body = \<lparr> msg_from = (str ''34600000001@c.us''), msg_fromMe = True, msg_body = body \<rparr>"

text \<open>A transport on which a send to anything but an identifier rejects.\<close>

definition only_identifiers_resolve :: "nat transport" where
  "only_identifiers_resolve =
     \<lparr> telegram_sendMessage = (\<lambda>d m n. (case d of BigIntVal i \<Rightarrow> True | Inherited k \<Rightarrow> False, Suc n)),
       msg_reply = (\<lambda>t n. (True, Suc n)),
       whatsapp_sendMessage = (\<lambda>a t n. (True, Suc n)) \<rparr>"

text \<open>
  The shape of what the handler does on a command: the sends, then between one and three
  replies, and exactly one or two of them when the replies resolve.
\<close>

definition reply_shape :: "'w transport \<Rightarrow> event list \<Rightarrow> event list \<Rightarrow> bool" where
  "reply_shape tr calls ev =
     ((\<forall>c \<in> set calls. \<exists>d m ok. c = TelegramSend d m ok)
      \<and> list_all is_reply ev \<and> 1 \<le> length ev \<and> length ev \<le> 3
      \<and> ((\<forall>t v. fst (msg_reply tr t v)) \<longrightarrow>
           length ev = (if (\<exists>c \<in> set calls. delivered c) \<and> (\<exists>c \<in> set calls. failed c)
                        then 2 else 1)))"



text \<open>
  The first token of a remainder in the words of the spec: the text before its first
  white-space character.
\<close>

definition first_whitespace_token :: "jsstring \<Rightarrow> jsstring" where
  "first_whitespace_token s = takeWhile (\<lambda>c. \<not> isWhiteSpace c) s"

section \<open>Facts about the string functions\<close>


lemma isDigit_not_space: "isDigit c \<Longrightarrow> \<not> isWhiteSpace c"
  by (auto simp: isDigit_def isWhiteSpace_def)





lemma trim_id: "s \<noteq> [] \<Longrightarrow> \<not> isWhiteSpace (hd s) \<Longrightarrow> \<not> isWhiteSpace (last s) \<Longrightarrow> trim s = s"
proof -
  assume a: "s \<noteq> []" "\<not> isWhiteSpace (hd s)" "\<not> isWhiteSpace (last s)"
  then have "dropWhile isWhiteSpace s = s" by (cases s) auto
  moreover from a have "dropWhile isWhiteSpace (rev s) = rev s"
    by (cases "rev s") (auto simp: last_rev hd_rev)
  ultimately show ?thesis by (simp add: trim_def)
qed

lemma all_digits_trim: "all_digits s \<Longrightarrow> trim s = s"
  unfolding all_digits_def
  by (rule trim_id) (auto simp: list_all_iff isDigit_not_space)

lemma all_digits_no_prefix:
  assumes "all_digits s" and "\<not> isDigit x"
  shows "take 2 s \<noteq> [y, x]"
proof (cases s)
  case Nil
  then show ?thesis by simp
next
  case (Cons a t)
  show ?thesis
  proof (cases t)
    case Nil
    with Cons show ?thesis by simp
  next
    case (Cons b u)
    with assms \<open>s = a # t\<close> have "isDigit b" by (simp add: all_digits_def)
    with Cons \<open>s = a # t\<close> assms(2) show ?thesis by auto
  qed
qed

lemma not_digit_letters:
  "\<not> isDigit 0x78" "\<not> isDigit 0x58" "\<not> isDigit 0x6F" "\<not> isDigit 0x4F"
  "\<not> isDigit 0x62" "\<not> isDigit 0x42" "\<not> isDigit PLUS" "\<not> isDigit MINUS"
  by (simp_all add: isDigit_def)

lemma BigInt_digits: "all_digits s \<Longrightarrow> BigInt s = Some (int (radix_value 10 s))"
proof -
  assume a: "all_digits s"
  then have t: "trim s = s" by (rule all_digits_trim)
  from a have ne: "s \<noteq> []" and hd: "isDigit (hd s)"
    by (auto simp: all_digits_def list_all_iff)
  have p: "take 2 s \<noteq> (str ''0x'')" "take 2 s \<noteq> (str ''0X'')"
    "take 2 s \<noteq> (str ''0o'')" "take 2 s \<noteq> (str ''0O'')"
    "take 2 s \<noteq> (str ''0b'')" "take 2 s \<noteq> (str ''0B'')"
    using all_digits_no_prefix [OF a] not_digit_letters by simp_all
  from hd have s: "hd s \<noteq> PLUS" "hd s \<noteq> MINUS"
    using not_digit_letters by auto
  show ?thesis using t ne p s a by (simp add: BigInt_def)
qed


section \<open>Facts about the configuration\<close>

lemma all_digits_no_colon: "all_digits s \<Longrightarrow> COLON \<notin> set s"
  by (auto simp: all_digits_def list_all_iff isDigit_def)

lemma parse_ids_Inr:
  "parse_ids es = Inr ids \<Longrightarrow>
     list_all all_digits es \<and> ids = map (\<lambda>x. int (radix_value 10 x)) es"
proof (induction es arbitrary: ids)
  case Nil
  then show ?case by simp
next
  case (Cons a es)
  from Cons.prems have d: "all_digits a" by (auto split: if_splits)
  then have b: "BigInt a = Some (int (radix_value 10 a))" by (rule BigInt_digits)
  from Cons.prems d b obtain bs where bs: "parse_ids es = Inr bs"
    and ids: "ids = int (radix_value 10 a) # bs"
    by (auto split: if_splits sum.splits)
  from Cons.IH [OF bs] d ids show ?case by simp
qed

lemma loadConfig_ids:
  assumes "loadConfig toLowerCase e = Inr cfg"
  shows "\<exists>s. js_or (env_FRIEND_TELEGRAM_IDS e) (env_FRIEND_TELEGRAM_ID e) = Some s
           \<and> parse_ids (friend_id_entries s) = Inr (FRIEND_TELEGRAM_IDS cfg)
           \<and> FRIEND_TELEGRAM_IDS cfg \<noteq> []"
proof -
  from assms obtain s where s: "js_or (env_FRIEND_TELEGRAM_IDS e) (env_FRIEND_TELEGRAM_ID e) = Some s"
    by (cases "js_or (env_FRIEND_TELEGRAM_IDS e) (env_FRIEND_TELEGRAM_ID e)")
       (auto simp: loadConfig_def)
  from assms s obtain ids where ids: "parse_ids (friend_id_entries s) = Inr ids"
    by (cases "parse_ids (friend_id_entries s)") (auto simp: loadConfig_def)
  from assms s ids have "FRIEND_TELEGRAM_IDS cfg = ids \<and> ids \<noteq> []"
    by (auto simp: loadConfig_def split: sum.splits if_splits prod.splits)
  with s ids show ?thesis by auto
qed

lemma loadConfig_tags:
  assumes "loadConfig toLowerCase e = Inr cfg"
  shows "(if truthy (env_FRIEND_TAGS e)
          then parse_tags toLowerCase (split COMMA (js_string (env_FRIEND_TAGS e))) ([], [])
          else Inr ([], [])) = Inr (FRIEND_TAG_MAP cfg, FRIEND_ID_TO_TAG cfg)"
proof -
  let ?t = "if truthy (env_FRIEND_TAGS e)
          then parse_tags toLowerCase (split COMMA (js_string (env_FRIEND_TAGS e))) ([], [])
          else Inr ([], [])"
  from assms obtain s where s: "js_or (env_FRIEND_TELEGRAM_IDS e) (env_FRIEND_TELEGRAM_ID e) = Some s"
    by (cases "js_or (env_FRIEND_TELEGRAM_IDS e) (env_FRIEND_TELEGRAM_ID e)")
       (auto simp: loadConfig_def)
  from assms s obtain ids where ids: "parse_ids (friend_id_entries s) = Inr ids"
    by (cases "parse_ids (friend_id_entries s)") (auto simp: loadConfig_def)
  from assms s ids obtain tm im where t: "?t = Inr (tm, im)"
    by (cases ?t) (auto simp: loadConfig_def)
  from assms s ids t have "FRIEND_TAG_MAP cfg = tm \<and> FRIEND_ID_TO_TAG cfg = im"
    by (simp add: loadConfig_def split: if_splits) auto
  with t show ?thesis by simp
qed

lemma set_update_subset: "set (AList.update k v m) \<subseteq> insert (k, v) (set m)"
  by (induction m) auto

lemma snd_object_set: "snd ` set (object_set m k v) \<subseteq> insert v (snd ` set m)"
  using set_update_subset [of k v m] by (auto simp: object_set_def)

lemma parse_tags_values:
  "parse_tags toLowerCase ps (tm, im) = Inr (tm', im') \<Longrightarrow>
     snd ` set tm' \<subseteq> snd ` set tm \<union> set (List.map_filter pair_id ps)"
proof (induction ps arbitrary: tm im)
  case Nil
  then show ?case by simp
next
  case (Cons p ps)
  show ?case
  proof (cases "pair_id p")
    case None
    with Cons.prems have "parse_tags toLowerCase ps (tm, im) = Inr (tm', im')"
      by (auto simp: pair_id_def split: list.splits if_splits option.splits)
    from Cons.IH [OF this] None show ?thesis by simp
  next
    case (Some b)
    then obtain tag idText rest where p: "map trim (split COLON p) = tag # idText # rest"
      and ne: "tag \<noteq> []" "idText \<noteq> []" and b: "BigInt idText = Some b"
      by (auto simp: pair_id_def split: list.splits if_splits)
    with Cons.prems have
      "parse_tags toLowerCase ps (object_set tm (toLowerCase tag) b, AList.update b tag im) = Inr (tm', im')"
      by simp
    from Cons.IH [OF this] snd_object_set [of tm "toLowerCase tag" b] Some
    show ?thesis by auto
  qed
qed

lemma load_dup: "loadConfig toLowerCase_sample (example_env (str ''111,111'') None) = Inr (example_config [111, 111] [] [])"
  by code_simp

lemma load_two: "loadConfig toLowerCase_sample (example_env (str ''111, 222'') None) = Inr (example_config [111, 222] [] [])"
  by code_simp

lemma load_untagged_id:
  "loadConfig toLowerCase_sample (example_env (str ''111'') (Some (str ''john:222'')))
     = Inr (example_config [111] [((str ''john''), 222)] [(222, (str ''john''))])"
  by code_simp

lemma load_tagged:
  "loadConfig toLowerCase_sample (example_env (str ''111,222'') (Some (str ''john:222'')))
     = Inr (example_config [111, 222] [((str ''john''), 222)] [(222, (str ''john''))])"
  by code_simp

lemma load_zero: "loadConfig toLowerCase_sample (example_env (str ''0'') None) = Inr (example_config [0] [] [])"
  by code_simp

lemma load_placeholder:
  "loadConfig toLowerCase_sample (example_env (str ''000000000, 111,,222'') None) = Inr (example_config [111, 222] [] [])"
  by code_simp

lemma parseInt_undefined: "parseInt None = None"
  by code_simp

lemma truthy_not_None: "truthy v \<Longrightarrow> v \<noteq> None"
  by (cases v) (simp_all add: truthy_def)

lemma loadConfig_keys:
  assumes "loadConfig toLowerCase e = Inr cfg"
  shows "parseInt (env_TELEGRAM_API_ID e) \<noteq> None \<and> parseInt (env_TELEGRAM_API_ID e) \<noteq> Some 0
         \<and> truthy (env_TELEGRAM_API_HASH e) \<and> truthy (env_TELEGRAM_PHONE e)
         \<and> session_file_exists e \<and> truthy (env_YOUR_WHATSAPP_NUMBER e)
         \<and> env_YOUR_WHATSAPP_NUMBER e \<noteq> Some (str ''34000000000'')"
proof -
  from assms obtain s where s: "js_or (env_FRIEND_TELEGRAM_IDS e) (env_FRIEND_TELEGRAM_ID e) = Some s"
    by (cases "js_or (env_FRIEND_TELEGRAM_IDS e) (env_FRIEND_TELEGRAM_ID e)")
       (auto simp: loadConfig_def)
  from assms s obtain ids where ids: "parse_ids (friend_id_entries s) = Inr ids"
    by (cases "parse_ids (friend_id_entries s)") (auto simp: loadConfig_def)
  let ?t = "if truthy (env_FRIEND_TAGS e)
          then parse_tags toLowerCase (split COMMA (js_string (env_FRIEND_TAGS e))) ([], [])
          else Inr ([], [])"
  from assms s ids obtain tm im where t: "?t = Inr (tm, im)"
    by (cases ?t) (auto simp: loadConfig_def)
  from assms s ids t show ?thesis
    by (cases "parseInt (env_TELEGRAM_API_ID e)")
       (simp_all add: loadConfig_def split: if_splits)
qed

section \<open>The recipients of \<open>all\<close>\<close>

text \<open>
  Claim C1 says that \<open>all\<close> resolves to the configured identifiers with each of them
  exactly once, also when the configuration repeats one. The script assigns
  \<open>FRIEND_TELEGRAM_IDS\<close> itself and nothing removes a repetition: with \<open>111,111\<close>
  configured, \<open>all\<close> has the recipient \<open>111\<close> twice.
\<close>

theorem resolve_all_keeps_duplicates_counterexample:
  "loadConfig toLowerCase_sample (example_env (str ''111,111'') None) = Inr (example_config [111, 111] [] [])
   \<and> resolve (example_config [111, 111] [] []) (str ''all'')
       = Resolved [BigIntVal 111, BigIntVal 111] (str ''all friends'')
   \<and> \<not> distinct [BigIntVal 111, BigIntVal 111]"
proof -
  have "resolve (example_config [111, 111] [] []) (str ''all'')
       = Resolved [BigIntVal 111, BigIntVal 111] (str ''all friends'')"
    by (simp add: resolve_def example_config_def)
  with load_dup show ?thesis by simp
qed

text \<open>
  Claim C1 as the script has it: for every configuration that loads, \<open>all\<close> resolves to
  one recipient for each entry kept from the identifier list, in the order of the list,
  a repeated entry giving a repeated recipient, with the description \<open>all friends\<close>.
\<close>

theorem resolve_all_is_configured_list:
  assumes "loadConfig toLowerCase e = Inr cfg"
  shows "\<exists>s. js_or (env_FRIEND_TELEGRAM_IDS e) (env_FRIEND_TELEGRAM_ID e) = Some s
           \<and> resolve cfg (str ''all'')
               = Resolved (map (\<lambda>entry. BigIntVal (int (radix_value 10 entry))) (friend_id_entries s))
                   (str ''all friends'')"
proof -
  from loadConfig_ids [OF assms] obtain s
    where s: "js_or (env_FRIEND_TELEGRAM_IDS e) (env_FRIEND_TELEGRAM_ID e) = Some s"
      and p: "parse_ids (friend_id_entries s) = Inr (FRIEND_TELEGRAM_IDS cfg)"
    by blast
  from parse_ids_Inr [OF p]
  have "FRIEND_TELEGRAM_IDS cfg = map (\<lambda>x. int (radix_value 10 x)) (friend_id_entries s)"
    by simp
  then have "resolve cfg (str ''all'')
      = Resolved (map (\<lambda>entry. BigIntVal (int (radix_value 10 entry))) (friend_id_entries s))
          (str ''all friends'')"
    by (simp add: resolve_def comp_def)
  with s show ?thesis by blast
qed

theorem resolve_all_is_configured_list_witness:
  "loadConfig toLowerCase_sample (example_env (str ''111, 222'') None) = Inr (example_config [111, 222] [] [])
   \<and> resolve (example_config [111, 222] [] []) (str ''all'')
       = Resolved [BigIntVal 111, BigIntVal 222] (str ''all friends'')"
proof -
  from resolve_all_is_configured_list [OF load_two] obtain s
    where s: "js_or (env_FRIEND_TELEGRAM_IDS (example_env (str ''111, 222'') None))
                (env_FRIEND_TELEGRAM_ID (example_env (str ''111, 222'') None)) = Some s"
      and r: "resolve (example_config [111, 222] [] []) (str ''all'')
               = Resolved (map (\<lambda>entry. BigIntVal (int (radix_value 10 entry))) (friend_id_entries s))
                   (str ''all friends'')"
    by blast
  have "js_or (env_FRIEND_TELEGRAM_IDS (example_env (str ''111, 222'') None))
                (env_FRIEND_TELEGRAM_ID (example_env (str ''111, 222'') None)) = Some (str ''111, 222'')"
    by code_simp
  with s have "s = (str ''111, 222'')" by simp
  moreover have "map (\<lambda>entry. BigIntVal (int (radix_value 10 entry))) (friend_id_entries (str ''111, 222''))
      = [BigIntVal 111, BigIntVal 222]"
    by code_simp
  ultimately show ?thesis using r load_two by simp
qed

section \<open>Tags and identifiers\<close>

text \<open>
  Claim C3 says that every identifier a tag maps to is also in \<open>FRIEND_TELEGRAM_IDS\<close>.
  The two lists are read independently and never compared: with the identifier list
  \<open>111\<close> and the tag list \<open>john:222\<close>, the tag \<open>john\<close> maps to \<open>222\<close>, which is not a
  configured identifier.
\<close>

theorem tag_value_outside_idsAll_counterexample:
  "loadConfig toLowerCase_sample (example_env (str ''111'') (Some (str ''john:222'')))
     = Inr (example_config [111] [((str ''john''), 222)] [(222, (str ''john''))])
   \<and> map_of (FRIEND_TAG_MAP (example_config [111] [((str ''john''), 222)] [(222, (str ''john''))])) (str ''john'')
       = Some 222
   \<and> 222 \<notin> set (FRIEND_TELEGRAM_IDS (example_config [111] [((str ''john''), 222)] [(222, (str ''john''))]))"
  using load_untagged_id by (simp add: example_config_def)

text \<open>
  Claim C3 as the script has it: for every configuration that loads, every value of
  \<open>FRIEND_TAG_MAP\<close> is an identifier named by a pair of the tag list; so the values are
  all in \<open>FRIEND_TELEGRAM_IDS\<close> whenever the identifiers named in the tag list are.
\<close>

theorem tag_values_come_from_tag_list:
  assumes "loadConfig toLowerCase e = Inr cfg"
  shows "snd ` set (FRIEND_TAG_MAP cfg) \<subseteq> set (tag_list_ids e)
         \<and> (set (tag_list_ids e) \<subseteq> set (FRIEND_TELEGRAM_IDS cfg)
              \<longrightarrow> snd ` set (FRIEND_TAG_MAP cfg) \<subseteq> set (FRIEND_TELEGRAM_IDS cfg))"
proof -
  have "snd ` set (FRIEND_TAG_MAP cfg) \<subseteq> set (tag_list_ids e)"
  proof (cases "truthy (env_FRIEND_TAGS e)")
    case True
    with loadConfig_tags [OF assms]
    have "parse_tags toLowerCase (split COMMA (js_string (env_FRIEND_TAGS e))) ([], [])
            = Inr (FRIEND_TAG_MAP cfg, FRIEND_ID_TO_TAG cfg)"
      by simp
    from parse_tags_values [OF this] True show ?thesis
      by (simp add: tag_list_ids_def)
  next
    case False
    with loadConfig_tags [OF assms] show ?thesis by simp
  qed
  then show ?thesis by blast
qed

theorem tag_values_come_from_tag_list_witness:
  "set (tag_list_ids (example_env (str ''111,222'') (Some (str ''john:222''))))
     \<subseteq> set (FRIEND_TELEGRAM_IDS (example_config [111, 222] [((str ''john''), 222)] [(222, (str ''john''))]))
   \<and> snd ` set (FRIEND_TAG_MAP (example_config [111, 222] [((str ''john''), 222)] [(222, (str ''john''))]))
     \<subseteq> set (FRIEND_TELEGRAM_IDS (example_config [111, 222] [((str ''john''), 222)] [(222, (str ''john''))]))"
proof -
  have "tag_list_ids (example_env (str ''111,222'') (Some (str ''john:222''))) = [222]"
    by code_simp
  then have "set (tag_list_ids (example_env (str ''111,222'') (Some (str ''john:222''))))
     \<subseteq> set (FRIEND_TELEGRAM_IDS (example_config [111, 222] [((str ''john''), 222)] [(222, (str ''john''))]))"
    by (simp add: example_config_def)
  with tag_values_come_from_tag_list [OF load_tagged] show ?thesis by blast
qed

section \<open>Start-up failures\<close>

text \<open>
  Claim C9 says that start-up fails on a missing required key, on a non-numeric entry
  of the identifier list, and on a tag string that contains the colon. The pairs of
  \<open>FRIEND_TAGS\<close> are not validated: of \<open>jo:1:23\<close> the first two fields are taken, the
  rest is dropped, and the script starts with the tag \<open>jo\<close> for the identifier \<open>1\<close>.
\<close>

theorem extra_colon_in_tag_accepted_counterexample:
  "loadConfig toLowerCase_sample (example_env (str ''111'') (Some (str ''jo:1:23'')))
     = Inr (example_config [111] [((str ''jo''), 1)] [(1, (str ''jo''))])"
  by code_simp

text \<open>
  Claim C9 as the script has it: start-up ends with exit status 1 whenever one of the
  keys \<open>TELEGRAM_API_ID\<close>, \<open>TELEGRAM_API_HASH\<close>, \<open>TELEGRAM_PHONE\<close>,
  \<open>YOUR_WHATSAPP_NUMBER\<close> is missing, when neither \<open>FRIEND_TELEGRAM_IDS\<close> nor
  \<open>FRIEND_TELEGRAM_ID\<close> is set, or when an entry kept from the identifier list is not a
  string of decimal digits or contains a colon.
\<close>

theorem loadConfig_fails_fast:
  assumes "env_TELEGRAM_API_ID e = None \<or> env_TELEGRAM_API_HASH e = None
           \<or> env_TELEGRAM_PHONE e = None \<or> env_YOUR_WHATSAPP_NUMBER e = None
           \<or> (env_FRIEND_TELEGRAM_IDS e = None \<and> env_FRIEND_TELEGRAM_ID e = None)
           \<or> (\<exists>s. js_or (env_FRIEND_TELEGRAM_IDS e) (env_FRIEND_TELEGRAM_ID e) = Some s
                  \<and> (\<exists>entry \<in> set (friend_id_entries s). \<not> all_digits entry \<or> COLON \<in> set entry))"
  shows "\<exists>err. loadConfig toLowerCase e = Inl err \<and> exit_status err \<noteq> 0"
proof (cases "loadConfig toLowerCase e")
  case (Inl err)
  then show ?thesis by (simp add: exit_status_def)
next
  case (Inr cfg)
  from loadConfig_ids [OF Inr] obtain s
    where s: "js_or (env_FRIEND_TELEGRAM_IDS e) (env_FRIEND_TELEGRAM_ID e) = Some s"
      and p: "parse_ids (friend_id_entries s) = Inr (FRIEND_TELEGRAM_IDS cfg)"
    by blast
  from parse_ids_Inr [OF p] have d: "\<forall>entry \<in> set (friend_id_entries s). all_digits entry"
    by (simp add: list_all_iff)
  then have c: "\<forall>entry \<in> set (friend_id_entries s). COLON \<notin> set entry"
    using all_digits_no_colon by blast
  from s have k: "\<not> (env_FRIEND_TELEGRAM_IDS e = None \<and> env_FRIEND_TELEGRAM_ID e = None)"
    by (auto simp: js_or_def truthy_def)
  from loadConfig_keys [OF Inr] have a: "parseInt (env_TELEGRAM_API_ID e) \<noteq> None"
    and t: "truthy (env_TELEGRAM_API_HASH e)" "truthy (env_TELEGRAM_PHONE e)"
      "truthy (env_YOUR_WHATSAPP_NUMBER e)"
    by simp_all
  from a have "env_TELEGRAM_API_ID e \<noteq> None"
    using parseInt_undefined by (cases "env_TELEGRAM_API_ID e") simp_all
  with t have "env_TELEGRAM_API_ID e \<noteq> None \<and> env_TELEGRAM_API_HASH e \<noteq> None
       \<and> env_TELEGRAM_PHONE e \<noteq> None \<and> env_YOUR_WHATSAPP_NUMBER e \<noteq> None"
    using truthy_not_None by blast
  with assms s d c k show ?thesis by auto
qed

theorem loadConfig_fails_fast_witness:
  "(\<exists>s. js_or (env_FRIEND_TELEGRAM_IDS (example_env (str ''111,abc'') None))
          (env_FRIEND_TELEGRAM_ID (example_env (str ''111,abc'') None)) = Some s
        \<and> (\<exists>entry \<in> set (friend_id_entries s). \<not> all_digits entry \<or> COLON \<in> set entry))
   \<and> (\<exists>err. loadConfig toLowerCase_sample (example_env (str ''111,abc'') None) = Inl err \<and> exit_status err \<noteq> 0)"
proof -
  have j: "js_or (env_FRIEND_TELEGRAM_IDS (example_env (str ''111,abc'') None))
          (env_FRIEND_TELEGRAM_ID (example_env (str ''111,abc'') None)) = Some (str ''111,abc'')"
    by code_simp
  have m: "(str ''abc'') \<in> set (friend_id_entries (str ''111,abc''))" by code_simp
  have n: "\<not> all_digits (str ''abc'')" by code_simp
  from j m n have h: "\<exists>s. js_or (env_FRIEND_TELEGRAM_IDS (example_env (str ''111,abc'') None))
          (env_FRIEND_TELEGRAM_ID (example_env (str ''111,abc'') None)) = Some s
        \<and> (\<exists>entry \<in> set (friend_id_entries s). \<not> all_digits entry \<or> COLON \<in> set entry)"
    by blast
  with loadConfig_fails_fast [of "example_env (str ''111,abc'') None"] show ?thesis by blast
qed

section \<open>The placeholder of the identifier list\<close>

text \<open>
  Claim C10 says that the empty entries and the entries \<open>000000000\<close> are dropped, so that
  the identifier \<open>000000000\<close> is never in \<open>FRIEND_TELEGRAM_IDS\<close>. The entries are compared
  as strings before they become numbers: the entry \<open>0\<close> is kept and gives \<open>0n\<close>, the
  number that \<open>000000000\<close> denotes.
\<close>

theorem zero_identifier_kept_counterexample:
  "loadConfig toLowerCase_sample (example_env (str ''0'') None) = Inr (example_config [0] [] [])
   \<and> BigInt (str ''000000000'') = Some 0
   \<and> 0 \<in> set (FRIEND_TELEGRAM_IDS (example_config [0] [] []))"
proof -
  have "BigInt (str ''000000000'') = Some 0" by code_simp
  with load_zero show ?thesis by (simp add: example_config_def)
qed

text \<open>
  Claim C10 as the script has it: for every configuration that loads,
  \<open>FRIEND_TELEGRAM_IDS\<close> holds the values of the trimmed entries of the identifier list
  that are neither empty nor the string \<open>000000000\<close>, in order, and each of these entries
  is a string of decimal digits.
\<close>

theorem friend_ids_from_kept_entries:
  assumes "loadConfig toLowerCase e = Inr cfg"
  shows "\<exists>s. js_or (env_FRIEND_TELEGRAM_IDS e) (env_FRIEND_TELEGRAM_ID e) = Some s
           \<and> FRIEND_TELEGRAM_IDS cfg
               = map (\<lambda>entry. int (radix_value 10 entry))
                   (filter (\<lambda>entry. entry \<noteq> [] \<and> entry \<noteq> (str ''000000000''))
                      (map trim (split COMMA s)))
           \<and> list_all all_digits
                (filter (\<lambda>entry. entry \<noteq> [] \<and> entry \<noteq> (str ''000000000''))
                   (map trim (split COMMA s)))"
proof -
  from loadConfig_ids [OF assms] obtain s
    where s: "js_or (env_FRIEND_TELEGRAM_IDS e) (env_FRIEND_TELEGRAM_ID e) = Some s"
      and p: "parse_ids (friend_id_entries s) = Inr (FRIEND_TELEGRAM_IDS cfg)"
    by blast
  from parse_ids_Inr [OF p] s show ?thesis
    unfolding friend_id_entries_def by blast
qed

theorem friend_ids_from_kept_entries_witness:
  "loadConfig toLowerCase_sample (example_env (str ''000000000, 111,,222'') None) = Inr (example_config [111, 222] [] [])
   \<and> FRIEND_TELEGRAM_IDS (example_config [111, 222] [] [])
       = map (\<lambda>entry. int (radix_value 10 entry)) [(str ''111''), (str ''222'')]"
proof -
  from friend_ids_from_kept_entries [OF load_placeholder] obtain s
    where s: "js_or (env_FRIEND_TELEGRAM_IDS (example_env (str ''000000000, 111,,222'') None))
                (env_FRIEND_TELEGRAM_ID (example_env (str ''000000000, 111,,222'') None)) = Some s"
      and r: "FRIEND_TELEGRAM_IDS (example_config [111, 222] [] [])
               = map (\<lambda>entry. int (radix_value 10 entry))
                   (filter (\<lambda>entry. entry \<noteq> [] \<and> entry \<noteq> (str ''000000000''))
                      (map trim (split COMMA s)))"
    by blast
  have "js_or (env_FRIEND_TELEGRAM_IDS (example_env (str ''000000000, 111,,222'') None))
                (env_FRIEND_TELEGRAM_ID (example_env (str ''000000000, 111,,222'') None))
          = Some (str ''000000000, 111,,222'')"
    by code_simp
  with s have "s = (str ''000000000, 111,,222'')" by simp
  moreover have "filter (\<lambda>entry. entry \<noteq> [] \<and> entry \<noteq> (str ''000000000''))
                      (map trim (split COMMA (str ''000000000, 111,,222''))) = [(str ''111''), (str ''222'')]"
    by code_simp
  ultimately show ?thesis using r load_placeholder by simp
qed

section \<open>The loop over the recipients and the confirmation\<close>

lemma dispatch_calls:
  "dispatch tr m ds (s0, e0, calls0, w) = (s, e, calls, w') \<Longrightarrow>
     \<exists>new. calls = calls0 @ new
       \<and> concat (map telegram_target new) = ds
       \<and> length new = length ds
       \<and> (\<forall>c \<in> set new. \<exists>d ok. c = TelegramSend d m ok)
       \<and> s = s0 + length (filter delivered new)
       \<and> e = e0 + length (filter failed new)"
proof (induction ds arbitrary: s0 e0 calls0 w)
  case Nil
  then show ?case by simp
next
  case (Cons d ds)
  obtain ok w1 where t: "telegram_sendMessage tr d m w = (ok, w1)"
    by (cases "telegram_sendMessage tr d m w")
  let ?c = "TelegramSend d m ok"
  from Cons.prems t have
    "dispatch tr m ds (if ok then s0 + 1 else s0, if ok then e0 else e0 + 1, calls0 @ [?c], w1)
       = (s, e, calls, w')"
    by (cases ok) simp_all
  from Cons.IH [OF this] obtain new where n: "calls = (calls0 @ [?c]) @ new"
    "concat (map telegram_target new) = ds" "length new = length ds"
    "\<forall>c \<in> set new. \<exists>d ok. c = TelegramSend d m ok"
    "s = (if ok then s0 + 1 else s0) + length (filter delivered new)"
    "e = (if ok then e0 else e0 + 1) + length (filter failed new)"
    by blast
  then have "calls = calls0 @ (?c # new)
       \<and> concat (map telegram_target (?c # new)) = d # ds
       \<and> length (?c # new) = length (d # ds)
       \<and> (\<forall>c \<in> set (?c # new). \<exists>d ok. c = TelegramSend d m ok)
       \<and> s = s0 + length (filter delivered (?c # new))
       \<and> e = e0 + length (filter failed (?c # new))"
    by auto
  then show ?case by blast
qed

lemma delivered_or_failed:
  "\<forall>c \<in> set cs. \<exists>d ok. c = TelegramSend d m ok \<Longrightarrow>
     length (filter delivered cs) + length (filter failed cs) = length cs"
  by (induction cs) auto

text \<open>The loop is the dispatcher of the spec, with the counters and the calls added up.\<close>

lemma dispatch_send_each:
  "dispatch tr m ds (s0, e0, calls0, w) =
     (case send_each tr m ds w of
        (rs, w') \<Rightarrow> (s0 + length (filter snd rs), e0 + length (filter (\<lambda>r. \<not> snd r) rs),
                      calls0 @ map (forward_result m) rs, w'))"
proof (induction ds arbitrary: s0 e0 calls0 w)
  case Nil
  then show ?case by simp
next
  case (Cons d ds)
  obtain ok w1 where t: "telegram_sendMessage tr d m w = (ok, w1)"
    by (cases "telegram_sendMessage tr d m w")
  obtain rs w2 where r: "send_each tr m ds w1 = (rs, w2)"
    by (cases "send_each tr m ds w1")
  show ?case
  proof (cases ok)
    case True
    with t r Cons.IH [of "s0 + 1" e0 "calls0 @ [TelegramSend d m True]" w1]
    show ?thesis by (simp add: forward_result_def)
  next
    case False
    with t r Cons.IH [of s0 "e0 + 1" "calls0 @ [TelegramSend d m False]" w1]
    show ?thesis by (simp add: forward_result_def)
  qed
qed

lemma send_each_destinations: "map fst (fst (send_each tr m ds w)) = ds"
proof (induction ds arbitrary: w)
  case Nil
  then show ?case by simp
next
  case (Cons d ds)
  obtain ok w1 where t: "telegram_sendMessage tr d m w = (ok, w1)"
    by (cases "telegram_sendMessage tr d m w")
  obtain rs w2 where r: "send_each tr m ds w1 = (rs, w2)"
    by (cases "send_each tr m ds w1")
  from Cons.IH [of w1] r have "map fst rs = ds" by simp
  with t r show ?case by simp
qed

text \<open>A transport that keeps a record receives what the transport it wraps receives.\<close>

lemma send_each_recorded:
  "send_each (recorded tr) m ds (w, r) =
     (case send_each tr m ds w of (rs, w') \<Rightarrow> (rs, (w', r @ map (forward_result m) rs)))"
proof (induction ds arbitrary: w r)
  case Nil
  then show ?case by simp
next
  case (Cons d ds)
  obtain ok w1 where t: "telegram_sendMessage tr d m w = (ok, w1)"
    by (cases "telegram_sendMessage tr d m w")
  obtain rs w2 where s: "send_each tr m ds w1 = (rs, w2)"
    by (cases "send_each tr m ds w1")
  from t have "telegram_sendMessage (recorded tr) d m (w, r) = (ok, (w1, r @ [TelegramSend d m ok]))"
    by (simp add: recorded_def)
  with t s Cons.IH [of w1 "r @ [TelegramSend d m ok]"] show ?case
    by (simp add: forward_result_def)
qed

lemma reply_step_recorded:
  "reply_step (recorded tr) t (w, r) =
     (case reply_step tr t w of (ev, w', ok) \<Rightarrow> (ev, (w', r @ ev), ok))"
  by (cases "msg_reply tr t w") (simp add: reply_step_def recorded_def)

lemma confirm_recorded:
  "confirm (recorded tr) targetTag s e (w, r) =
     (case confirm tr targetTag s e w of (ev, w', ok) \<Rightarrow> (ev, (w', r @ ev), ok))"
proof -
  obtain ev1 w1 ok1 where a: "reply_step tr (sent_text targetTag s) w = (ev1, w1, ok1)"
    by (cases "reply_step tr (sent_text targetTag s) w")
  obtain ev2 w2 ok2 where b: "reply_step tr (failed_text e) w = (ev2, w2, ok2)"
    by (cases "reply_step tr (failed_text e) w")
  obtain ev3 w3 ok3 where c: "reply_step tr (failed_text e) w1 = (ev3, w3, ok3)"
    by (cases "reply_step tr (failed_text e) w1")
  show ?thesis
    using a b c by (simp add: confirm_def reply_step_recorded)
qed

lemma reply_step_resolves:
  "\<forall>t w. fst (msg_reply tr t w) \<Longrightarrow>
     reply_step tr t w = ([WhatsAppReply t True], snd (msg_reply tr t w), True)"
proof -
  assume "\<forall>t w. fst (msg_reply tr t w)"
  then have "fst (msg_reply tr t w)" by blast
  then show ?thesis by (cases "msg_reply tr t w") (simp add: reply_step_def)
qed

lemma confirm_resolves:
  assumes "\<forall>t w. fst (msg_reply tr t w)"
  shows "fst (confirm tr targetTag s e w)
           = (if s > 0 then [WhatsAppReply (sent_text targetTag s) True] else [])
             @ (if e > 0 then [WhatsAppReply (failed_text e) True] else [])
         \<and> snd (snd (confirm tr targetTag s e w))"
  by (simp add: confirm_def reply_step_resolves [OF assms])

lemma forward_result_counts:
  "length (filter delivered (map (forward_result m) rs)) = length (filter snd rs)
   \<and> length (filter failed (map (forward_result m) rs)) = length (filter (\<lambda>r. \<not> snd r) rs)
   \<and> concat (map telegram_target (map (forward_result m) rs)) = map fst rs
   \<and> (\<forall>c \<in> set (map (forward_result m) rs). \<exists>d ok. c = TelegramSend d m ok)"
  by (induction rs) (auto simp: forward_result_def)

text \<open>
  Claim C7: on a transport that keeps a record, whatever the outcomes of the sends, the
  transport receives from the loop exactly one \<open>sendMessage\<close> for each destination, in the
  order of the list, with the payload: the attempts of the dispatcher of the spec, a
  rejected send not stopping the later ones. What the loop reports is what the transport
  received; the two counters are the numbers of sends that the transport resolved and
  rejected, which add up to the number of destinations; and the record does not change
  what the loop does. For the target \<open>all\<close>, when the replies resolve, the confirmation
  then passes to \<open>reply\<close> exactly these counters, each when it is not zero, the
  successes first.
\<close>

theorem dispatch_attempts_every_destination:
  assumes "dispatch (recorded tr) messageToSend ds (0, 0, [], (w, []))
             = (successCount, errorCount, calls, (w', received))"
  shows "received = map (forward_result messageToSend) (fst (send_each tr messageToSend ds w))
         \<and> w' = snd (send_each tr messageToSend ds w)
         \<and> concat (map telegram_target received) = ds
         \<and> length received = length ds
         \<and> (\<forall>c \<in> set received. \<exists>d ok. c = TelegramSend d messageToSend ok)
         \<and> calls = received
         \<and> successCount = length (filter delivered received)
         \<and> errorCount = length (filter failed received)
         \<and> successCount + errorCount = length ds
         \<and> dispatch tr messageToSend ds (0, 0, [], w) = (successCount, errorCount, calls, w')
         \<and> ((\<forall>t v. fst (msg_reply tr t v)) \<longrightarrow>
              snd (fst (snd (confirm (recorded tr) (str ''all'') successCount errorCount (w', received))))
                = received
                  @ (if successCount > 0
                     then [WhatsAppReply (check_mark @ (str '' Sent to '') @ nat_toString successCount
                                            @ (str '' friend(s) on Telegram'')) True]
                     else [])
                  @ (if errorCount > 0
                     then [WhatsAppReply (warning_sign @ (str '' Failed to send to '')
                                            @ nat_toString errorCount @ (str '' friend(s)'')) True]
                     else []))"
proof -
  obtain rs w2 where se: "send_each tr messageToSend ds w = (rs, w2)"
    by (cases "send_each tr messageToSend ds w")
  let ?new = "map (forward_result messageToSend) rs"
  from se have ser: "send_each (recorded tr) messageToSend ds (w, []) = (rs, (w2, ?new))"
    by (simp add: send_each_recorded)
  from ser dispatch_send_each [of "recorded tr" messageToSend ds 0 0 "[]" "(w, [])"]
  have "dispatch (recorded tr) messageToSend ds (0, 0, [], (w, []))
          = (length (filter snd rs), length (filter (\<lambda>r. \<not> snd r) rs), ?new, (w2, ?new))"
    by simp
  with assms have "(successCount, errorCount, calls, (w', received))
          = (length (filter snd rs), length (filter (\<lambda>r. \<not> snd r) rs), ?new, (w2, ?new))"
    by (simp only:)
  then have r: "successCount = length (filter snd rs)"
    "errorCount = length (filter (\<lambda>r. \<not> snd r) rs)"
    "calls = ?new" "w' = w2" "received = ?new"
    by (simp_all only: prod.inject)
  from se dispatch_send_each [of tr messageToSend ds 0 0 "[]" w] r
  have d: "dispatch tr messageToSend ds (0, 0, [], w) = (successCount, errorCount, calls, w')"
    by simp
  from send_each_destinations [of tr messageToSend ds w] se have f: "map fst rs = ds" by simp
  from forward_result_counts [of messageToSend rs] r f
  have c: "concat (map telegram_target received) = ds"
    "\<forall>c \<in> set received. \<exists>d ok. c = TelegramSend d messageToSend ok"
    "successCount = length (filter delivered received)"
    "errorCount = length (filter failed received)"
    by simp_all
  from r f have l: "length received = length ds" by (metis length_map)
  from delivered_or_failed [OF c(2)] c l have t: "successCount + errorCount = length ds"
    by simp
  have "snd (fst (snd (confirm (recorded tr) (str ''all'') successCount errorCount (w', received))))
                = received
                  @ (if successCount > 0
                     then [WhatsAppReply (check_mark @ (str '' Sent to '') @ nat_toString successCount
                                            @ (str '' friend(s) on Telegram'')) True]
                     else [])
                  @ (if errorCount > 0
                     then [WhatsAppReply (warning_sign @ (str '' Failed to send to '')
                                            @ nat_toString errorCount @ (str '' friend(s)'')) True]
                     else [])"
    if rr: "\<forall>t v. fst (msg_reply tr t v)"
  proof -
    obtain ev w3 ok where cf: "confirm tr (str ''all'') successCount errorCount w' = (ev, w3, ok)"
      by (cases "confirm tr (str ''all'') successCount errorCount w'")
    from confirm_resolves [OF rr, of "str ''all''" successCount errorCount w'] cf
    have "ev = (if successCount > 0 then [WhatsAppReply (sent_text (str ''all'') successCount) True] else [])
             @ (if errorCount > 0 then [WhatsAppReply (failed_text errorCount) True] else [])"
      by simp
    with cf show ?thesis
      by (simp add: confirm_recorded sent_text_def failed_text_def)
  qed
  with r se d c l t show ?thesis by simp
qed

lemma dispatch_three:
  "dispatch (recorded second_send_rejects) (str ''hi'') [BigIntVal 111, BigIntVal 222, BigIntVal 333]
     (0, 0, [], (0, []))
     = (2, 1,
        [TelegramSend (BigIntVal 111) (str ''hi'') True, TelegramSend (BigIntVal 222) (str ''hi'') False,
         TelegramSend (BigIntVal 333) (str ''hi'') True],
        (3, [TelegramSend (BigIntVal 111) (str ''hi'') True, TelegramSend (BigIntVal 222) (str ''hi'') False,
             TelegramSend (BigIntVal 333) (str ''hi'') True]))"
  by (simp add: second_send_rejects_def recorded_def)

theorem dispatch_attempts_every_destination_witness:
  "dispatch (recorded second_send_rejects) (str ''hi'') [BigIntVal 111, BigIntVal 222, BigIntVal 333]
     (0, 0, [], (0, []))
     = (2, 1,
        [TelegramSend (BigIntVal 111) (str ''hi'') True, TelegramSend (BigIntVal 222) (str ''hi'') False,
         TelegramSend (BigIntVal 333) (str ''hi'') True],
        (3, [TelegramSend (BigIntVal 111) (str ''hi'') True, TelegramSend (BigIntVal 222) (str ''hi'') False,
             TelegramSend (BigIntVal 333) (str ''hi'') True]))
   \<and> (\<forall>t v. fst (msg_reply second_send_rejects t v))
   \<and> snd (fst (snd (confirm (recorded second_send_rejects) (str ''all'') 2 1
          (3, [TelegramSend (BigIntVal 111) (str ''hi'') True,
               TelegramSend (BigIntVal 222) (str ''hi'') False,
               TelegramSend (BigIntVal 333) (str ''hi'') True]))))
       = [TelegramSend (BigIntVal 111) (str ''hi'') True,
          TelegramSend (BigIntVal 222) (str ''hi'') False,
          TelegramSend (BigIntVal 333) (str ''hi'') True,
          WhatsAppReply (check_mark @ (str '' Sent to 2 friend(s) on Telegram'')) True,
          WhatsAppReply (warning_sign @ (str '' Failed to send to 1 friend(s)'')) True]"
proof -
  have r: "\<forall>t v. fst (msg_reply second_send_rejects t v)"
    by (simp add: second_send_rejects_def)
  have n: "nat_toString 2 = (str ''2'')" "nat_toString 1 = (str ''1'')"
    "nat_toString (Suc 0) = (str ''1'')"
    by code_simp+
  let ?calls = "[TelegramSend (BigIntVal 111) (str ''hi'') True,
                 TelegramSend (BigIntVal 222) (str ''hi'') False,
                 TelegramSend (BigIntVal 333) (str ''hi'') True]"
  from dispatch_attempts_every_destination [OF dispatch_three] r
  have "snd (fst (snd (confirm (recorded second_send_rejects) (str ''all'') 2 1 (3, ?calls))))
          = ?calls
            @ (if (2::nat) > 0
               then [WhatsAppReply (check_mark @ (str '' Sent to '') @ nat_toString 2
                                      @ (str '' friend(s) on Telegram'')) True]
               else [])
            @ (if (1::nat) > 0
               then [WhatsAppReply (warning_sign @ (str '' Failed to send to '')
                                      @ nat_toString 1 @ (str '' friend(s)'')) True]
               else [])"
    by blast
  then have c: "snd (fst (snd (confirm (recorded second_send_rejects) (str ''all'') 2 1 (3, ?calls))))
       = [TelegramSend (BigIntVal 111) (str ''hi'') True,
          TelegramSend (BigIntVal 222) (str ''hi'') False,
          TelegramSend (BigIntVal 333) (str ''hi'') True,
          WhatsAppReply (check_mark @ (str '' Sent to 2 friend(s) on Telegram'')) True,
          WhatsAppReply (warning_sign @ (str '' Failed to send to 1 friend(s)'')) True]"
    by (simp add: n)
  show ?thesis by (intro conjI) (rule dispatch_three, rule r, rule c)
qed

section \<open>Facts about the command parser\<close>

lemma indexOf_absent: "c \<notin> set s \<Longrightarrow> indexOf s c = -1"
  by (induction s) (auto simp: Let_def)

lemma indexOf_present: "c \<in> set s \<Longrightarrow> 0 \<le> indexOf s c \<and> take (nat (indexOf s c)) s = takeWhile (\<lambda>x. x \<noteq> c) s"
proof (induction s)
  case Nil
  then show ?case by simp
next
  case (Cons a s)
  show ?case
  proof (cases "a = c")
    case True
    then show ?thesis by simp
  next
    case False
    with Cons have "0 \<le> indexOf s c" and "take (nat (indexOf s c)) s = takeWhile (\<lambda>x. x \<noteq> c) s"
      by auto
    with False show ?thesis by (simp add: Let_def nat_add_distrib)
  qed
qed

lemma indexOf_zero: "indexOf s c = 0 \<Longrightarrow> s \<noteq> [] \<and> hd s = c"
  by (cases s) (auto simp: Let_def split: if_splits)

lemma trim_prefix: "trim s @ rev (takeWhile isWhiteSpace (rev (dropWhile isWhiteSpace s))) = dropWhile isWhiteSpace s"
proof -
  let ?t = "dropWhile isWhiteSpace s"
  have "rev (takeWhile isWhiteSpace (rev ?t) @ dropWhile isWhiteSpace (rev ?t)) = ?t"
    by simp
  then show ?thesis by (simp add: trim_def del: takeWhile_dropWhile_id)
qed

lemma hd_trim: "trim s \<noteq> [] \<Longrightarrow> \<not> isWhiteSpace (hd (trim s))"
proof -
  assume ne: "trim s \<noteq> []"
  then have "hd (trim s) = hd (dropWhile isWhiteSpace s)"
    using trim_prefix [of s] by (metis hd_append2)
  moreover from ne trim_prefix [of s] have "dropWhile isWhiteSpace s \<noteq> []"
    by (metis append_is_Nil_conv)
  ultimately show ?thesis using hd_dropWhile by metis
qed

lemma space_isWhiteSpace: "isWhiteSpace SPACE"
  by (simp add: isWhiteSpace_def)

lemma firstSpace_trim:
  assumes "trim s \<noteq> []"
  shows "(0 < indexOf (trim s) SPACE) = (SPACE \<in> set (trim s))"
proof (cases "SPACE \<in> set (trim s)")
  case True
  from indexOf_present [OF True] have "0 \<le> indexOf (trim s) SPACE" by simp
  moreover have "indexOf (trim s) SPACE \<noteq> 0"
    using indexOf_zero [of "trim s" "SPACE"] hd_trim [OF assms] space_isWhiteSpace by auto
  ultimately show ?thesis using True by simp
next
  case False
  then show ?thesis by (simp add: indexOf_absent)
qed

lemma check_message_nonempty: "m \<noteq> [] \<Longrightarrow> check_message t m = Command t m"
  by (simp add: check_message_def)

text \<open>
  The default of the parser: a first word that is neither \<open>all\<close> nor found by a read of
  \<open>FRIEND_TAG_MAP\<close> stays part of the message, which goes to \<open>all\<close>.
\<close>

lemma parse_command_first_word_unknown:
  assumes cmd: "startsWith (toLowerCase body) (toLowerCase (MESSAGE_PREFIX cfg))"
    and ap: "afterPrefix = trim (substring_from body (length (MESSAGE_PREFIX cfg)))"
    and ne: "afterPrefix \<noteq> []"
    and tok: "token = toLowerCase (takeWhile (\<lambda>x. x \<noteq> SPACE) afterPrefix)"
    and na: "token \<noteq> (str ''all'')"
    and nt: "\<not> truthy_val (object_get (FRIEND_TAG_MAP cfg) token)"
  shows "parse_command toLowerCase cfg body = Command (str ''all'') afterPrefix"
proof (cases "SPACE \<in> set afterPrefix")
  case True
  with ap ne have fs: "0 < indexOf afterPrefix SPACE"
    using firstSpace_trim [of "substring_from body (length (MESSAGE_PREFIX cfg))"] by simp
  from indexOf_present [OF True] tok
  have "toLowerCase (substring_to afterPrefix (indexOf afterPrefix SPACE)) = token"
    by (simp add: substring_to_def)
  with cmd ap [symmetric] ne fs na nt show ?thesis
    by (simp add: parse_command_def Let_def check_message_nonempty)
next
  case False
  then have fs: "indexOf afterPrefix SPACE = -1" by (rule indexOf_absent)
  from False have "takeWhile (\<lambda>x. x \<noteq> SPACE) afterPrefix = afterPrefix"
    by (auto simp: takeWhile_eq_all_conv)
  with tok have "toLowerCase afterPrefix = token" by simp
  with cmd ap [symmetric] ne fs na nt show ?thesis
    by (simp add: parse_command_def Let_def check_message_nonempty)
qed

lemma parse_command_selector_alone:
  assumes cmd: "startsWith (toLowerCase body) (toLowerCase (MESSAGE_PREFIX cfg))"
    and ap: "afterPrefix = trim (substring_from body (length (MESSAGE_PREFIX cfg)))"
    and ne: "afterPrefix \<noteq> []"
    and ns: "SPACE \<notin> set afterPrefix"
    and sel: "toLowerCase afterPrefix = (str ''all'')
              \<or> truthy_val (object_get (FRIEND_TAG_MAP cfg) (toLowerCase afterPrefix))"
  shows "parse_command toLowerCase cfg body = NoMessageAfterTag"
proof -
  from ns have fs: "indexOf afterPrefix SPACE = -1" by (rule indexOf_absent)
  with cmd ap [symmetric] ne sel show ?thesis
    by (auto simp: parse_command_def Let_def)
qed

lemma try_block_owner:
  assumes "msg_fromMe msg \<or> remove_first (msg_from msg) (str ''@c.us'') = YOUR_WHATSAPP_NUMBER cfg"
  shows "try_block toLowerCase cfg tr msg w =
           (case parse_command toLowerCase cfg (msg_body msg) of
              NotACommand \<Rightarrow> ([], w, True)
            | EmptyPayload \<Rightarrow> reply_step tr (usage_text cfg) w
            | NoMessageAfterTag \<Rightarrow> reply_step tr no_message_after_tag_text w
            | MessageEmpty \<Rightarrow> reply_step tr message_empty_text w
            | Command targetTag messageToSend \<Rightarrow>
                (case resolve cfg targetTag of
                   UnknownTag \<Rightarrow> reply_step tr (unknown_tag_text cfg targetTag) w
                 | Resolved targetFriendIds targetDescription \<Rightarrow>
                     (case dispatch tr messageToSend targetFriendIds (0, 0, [], w) of
                        (successCount, errorCount, calls, w1) \<Rightarrow>
                          (case confirm tr targetTag successCount errorCount w1 of
                             (ev, w2, ok) \<Rightarrow> (calls @ ev, w2, ok)))))"
  using assms by (auto simp: try_block_def Let_def)

lemma handle_not_a_command:
  "parse_command toLowerCase cfg (msg_body msg) = NotACommand \<Longrightarrow> handleWhatsAppMessage toLowerCase cfg tr msg w = ([], w)"
  by (simp add: handleWhatsAppMessage_def try_block_def Let_def)


lemma parse_command_same_rest:
  assumes "startsWith (toLowerCase (p1 @ rest)) (toLowerCase (MESSAGE_PREFIX cfg))"
    and "startsWith (toLowerCase (p2 @ rest)) (toLowerCase (MESSAGE_PREFIX cfg))"
    and "length p1 = length (MESSAGE_PREFIX cfg)"
    and "length p2 = length (MESSAGE_PREFIX cfg)"
  shows "parse_command toLowerCase cfg (p1 @ rest) = parse_command toLowerCase cfg (p2 @ rest)"
  using assms by (simp add: parse_command_def substring_from_def)

lemma parse_command_NotACommand:
  "startsWith (toLowerCase body) (toLowerCase (MESSAGE_PREFIX cfg)) \<Longrightarrow>
     parse_command toLowerCase cfg body \<noteq> NotACommand"
  by (auto simp: parse_command_def Let_def check_message_def)

section \<open>The prefix\<close>

text \<open>
  Claim C6 says that two bodies that differ only in the case of the prefix parse alike.
  The script finds the prefix by comparing lower-cased texts, but cuts the remainder at
  the length of the configured prefix. With the prefix U+0130 followed by a colon, whose
  lower case is one code unit longer, the body that starts with the prefix and the body
  that starts with its lower case are both commands, and the second keeps the colon in
  its payload.
\<close>

theorem lower_case_of_prefix_longer_counterexample:
  "loadConfig toLowerCase_sample
       ((example_env (str ''111'') None) \<lparr> env_MESSAGE_PREFIX := Some [0x0130, COLON] \<rparr>)
     = Inr ((example_config [111] [] []) \<lparr> MESSAGE_PREFIX := [0x0130, COLON] \<rparr>)
   \<and> toLowerCase_sample [0x0130, COLON] = [0x0069, 0x0307, COLON]
   \<and> toLowerCase_sample [0x0069, 0x0307, COLON] = [0x0069, 0x0307, COLON]
   \<and> parse_command toLowerCase_sample ((example_config [111] [] []) \<lparr> MESSAGE_PREFIX := [0x0130, COLON] \<rparr>)
        ([0x0130, COLON] @ (str '' hello''))
       = Command (str ''all'') (str ''hello'')
   \<and> parse_command toLowerCase_sample ((example_config [111] [] []) \<lparr> MESSAGE_PREFIX := [0x0130, COLON] \<rparr>)
        ([0x0069, 0x0307, COLON] @ (str '' hello''))
       = Command (str ''all'') (str '': hello'')"
proof -
  have "loadConfig toLowerCase_sample
       ((example_env (str ''111'') None) \<lparr> env_MESSAGE_PREFIX := Some [0x0130, COLON] \<rparr>)
     = Inr ((example_config [111] [] []) \<lparr> MESSAGE_PREFIX := [0x0130, COLON] \<rparr>)"
    by code_simp
  moreover have "toLowerCase_sample [0x0130, COLON] = [0x0069, 0x0307, COLON]"
    by code_simp
  moreover have "toLowerCase_sample [0x0069, 0x0307, COLON] = [0x0069, 0x0307, COLON]"
    by code_simp
  moreover have "parse_command toLowerCase_sample ((example_config [111] [] []) \<lparr> MESSAGE_PREFIX := [0x0130, COLON] \<rparr>)
        ([0x0130, COLON] @ (str '' hello''))
       = Command (str ''all'') (str ''hello'')"
    by code_simp
  moreover have "parse_command toLowerCase_sample ((example_config [111] [] []) \<lparr> MESSAGE_PREFIX := [0x0130, COLON] \<rparr>)
        ([0x0069, 0x0307, COLON] @ (str '' hello''))
       = Command (str ''all'') (str '': hello'')"
    by code_simp
  ultimately show ?thesis by blast
qed

text \<open>
  Claim C6 as the script has it, whatever the lower-casing: a body whose lower case does
  not start with the lower case of the prefix is not a command, and the handler then
  makes no call on any transport and leaves the world as it was; and two bodies that are
  recognised as commands, agree after their prefix portions, and have prefix portions of
  the length of the configured prefix (as every casing of an ASCII prefix has) parse to
  the same outcome, so to the same target and payload.
\<close>

theorem prefix_decides_command_case_insensitively:
  "(\<not> startsWith (toLowerCase (msg_body msg)) (toLowerCase (MESSAGE_PREFIX cfg))
      \<longrightarrow> parse_command toLowerCase cfg (msg_body msg) = NotACommand
          \<and> handleWhatsAppMessage toLowerCase cfg tr msg w = ([], w))
   \<and> (startsWith (toLowerCase (p1 @ rest)) (toLowerCase (MESSAGE_PREFIX cfg))
        \<and> startsWith (toLowerCase (p2 @ rest)) (toLowerCase (MESSAGE_PREFIX cfg))
        \<and> length p1 = length (MESSAGE_PREFIX cfg)
        \<and> length p2 = length (MESSAGE_PREFIX cfg)
      \<longrightarrow> parse_command toLowerCase cfg (p1 @ rest) \<noteq> NotACommand
          \<and> parse_command toLowerCase cfg (p1 @ rest) = parse_command toLowerCase cfg (p2 @ rest))"
proof -
  have a: "parse_command toLowerCase cfg (msg_body msg) = NotACommand
          \<and> handleWhatsAppMessage toLowerCase cfg tr msg w = ([], w)"
    if "\<not> startsWith (toLowerCase (msg_body msg)) (toLowerCase (MESSAGE_PREFIX cfg))"
  proof -
    from that have "parse_command toLowerCase cfg (msg_body msg) = NotACommand"
      by (simp add: parse_command_def)
    then show ?thesis by (simp add: handle_not_a_command)
  qed
  have b: "parse_command toLowerCase cfg (p1 @ rest) \<noteq> NotACommand
          \<and> parse_command toLowerCase cfg (p1 @ rest) = parse_command toLowerCase cfg (p2 @ rest)"
    if "startsWith (toLowerCase (p1 @ rest)) (toLowerCase (MESSAGE_PREFIX cfg))"
      and "startsWith (toLowerCase (p2 @ rest)) (toLowerCase (MESSAGE_PREFIX cfg))"
      and "length p1 = length (MESSAGE_PREFIX cfg)"
      and "length p2 = length (MESSAGE_PREFIX cfg)"
    using parse_command_same_rest [OF that] parse_command_NotACommand [OF that(1)] by simp
  from a b show ?thesis by blast
qed

theorem prefix_decides_command_case_insensitively_witness:
  "\<not> startsWith (toLowerCase_sample (msg_body (owner_message (str ''hello tg:''))))
        (toLowerCase_sample (MESSAGE_PREFIX (example_config [111] [] [])))
   \<and> handleWhatsAppMessage toLowerCase_sample (example_config [111] [] []) (recorded all_calls_resolve)
        (owner_message (str ''hello tg:'')) (0, [])
       = ([], (0, []))
   \<and> startsWith (toLowerCase_sample ((str ''TG:'') @ (str '' hello'')))
        (toLowerCase_sample (MESSAGE_PREFIX (example_config [111] [] [])))
   \<and> startsWith (toLowerCase_sample ((str ''tg:'') @ (str '' hello'')))
        (toLowerCase_sample (MESSAGE_PREFIX (example_config [111] [] [])))
   \<and> parse_command toLowerCase_sample (example_config [111] [] []) ((str ''TG:'') @ (str '' hello''))
       = parse_command toLowerCase_sample (example_config [111] [] []) ((str ''tg:'') @ (str '' hello''))"
proof -
  let ?cfg = "example_config [111] [] []"
  have a: "\<not> startsWith (toLowerCase_sample (msg_body (owner_message (str ''hello tg:''))))
        (toLowerCase_sample (MESSAGE_PREFIX ?cfg))"
    by code_simp
  have b: "startsWith (toLowerCase_sample ((str ''TG:'') @ (str '' hello'')))
        (toLowerCase_sample (MESSAGE_PREFIX ?cfg))"
    by code_simp
  have c: "startsWith (toLowerCase_sample ((str ''tg:'') @ (str '' hello'')))
        (toLowerCase_sample (MESSAGE_PREFIX ?cfg))"
    by code_simp
  have l: "length (str ''TG:'') = length (MESSAGE_PREFIX ?cfg)"
    "length (str ''tg:'') = length (MESSAGE_PREFIX ?cfg)"
    by (simp_all add: example_config_def)
  from a b c l
    prefix_decides_command_case_insensitively
      [of toLowerCase_sample "owner_message (str ''hello tg:'')" ?cfg "recorded all_calls_resolve"
          "(0, [])" "str ''TG:''" "str '' hello''" "str ''tg:''"]
  show ?thesis by blast
qed

section \<open>The first word of a command\<close>

text \<open>
  Claim C4 says that a first white-space-delimited token that is neither \<open>all\<close> nor a key
  of the tag map stays in the payload, which goes to \<open>all\<close>. The script cuts the first
  word at the first space character, not at the first white space: with a tag that
  contains a TAB, the token before the TAB is not a key, yet the word before the space
  is, and it is taken as the selector.
\<close>

theorem tab_in_tag_first_word_counterexample:
  "loadConfig toLowerCase_sample (example_env (str ''111'') (Some ((str ''a'') @ [0x09] @ (str ''b:111''))))
     = Inr (example_config [111] [((str ''a'') @ [0x09] @ (str ''b''), 111)] [(111, (str ''a'') @ [0x09] @ (str ''b''))])
   \<and> toLowerCase_sample (first_whitespace_token (trim (substring_from ((str ''tg:a'') @ [0x09] @ (str ''b hello'')) 3)))
       = (str ''a'')
   \<and> map_of (FRIEND_TAG_MAP (example_config [111] [((str ''a'') @ [0x09] @ (str ''b''), 111)]
                                 [(111, (str ''a'') @ [0x09] @ (str ''b''))])) (str ''a'') = None
   \<and> parse_command toLowerCase_sample (example_config [111] [((str ''a'') @ [0x09] @ (str ''b''), 111)]
                       [(111, (str ''a'') @ [0x09] @ (str ''b''))]) ((str ''tg:a'') @ [0x09] @ (str ''b hello''))
       = Command ((str ''a'') @ [0x09] @ (str ''b'')) (str ''hello'')"
proof -
  have "loadConfig toLowerCase_sample (example_env (str ''111'') (Some ((str ''a'') @ [0x09] @ (str ''b:111''))))
     = Inr (example_config [111] [((str ''a'') @ [0x09] @ (str ''b''), 111)] [(111, (str ''a'') @ [0x09] @ (str ''b''))])"
    by code_simp
  moreover have "toLowerCase_sample (first_whitespace_token (trim (substring_from ((str ''tg:a'') @ [0x09] @ (str ''b hello'')) 3)))
       = (str ''a'')"
    by code_simp
  moreover have "map_of (FRIEND_TAG_MAP (example_config [111] [((str ''a'') @ [0x09] @ (str ''b''), 111)]
                                 [(111, (str ''a'') @ [0x09] @ (str ''b''))])) (str ''a'') = None"
    by code_simp
  moreover have "parse_command toLowerCase_sample (example_config [111] [((str ''a'') @ [0x09] @ (str ''b''), 111)]
                       [(111, (str ''a'') @ [0x09] @ (str ''b''))]) ((str ''tg:a'') @ [0x09] @ (str ''b hello''))
       = Command ((str ''a'') @ [0x09] @ (str ''b'')) (str ''hello'')"
    by code_simp
  ultimately show ?thesis by blast
qed

text \<open>
  Claim C4 as the script has it: when the first word of the trimmed remainder (the text
  before its first space character, or all of it when it has no space) is, in lower
  case, neither \<open>all\<close>, nor a key of the tag map, nor the name of a property that an
  object inherits, the body parses to the target \<open>all\<close> with the whole trimmed remainder
  as the payload.
\<close>

theorem unknown_first_word_goes_to_all:
  assumes cmd: "startsWith (toLowerCase body) (toLowerCase (MESSAGE_PREFIX cfg))"
    and ap: "afterPrefix = trim (substring_from body (length (MESSAGE_PREFIX cfg)))"
    and ne: "afterPrefix \<noteq> []"
    and tok: "token = toLowerCase (takeWhile (\<lambda>x. x \<noteq> SPACE) afterPrefix)"
    and na: "token \<noteq> (str ''all'')"
    and nk: "map_of (FRIEND_TAG_MAP cfg) token = None"
    and ni: "token \<notin> set Object_prototype_names"
  shows "parse_command toLowerCase cfg body = Command (str ''all'') afterPrefix"
proof -
  from nk ni have "\<not> truthy_val (object_get (FRIEND_TAG_MAP cfg) token)"
    by (simp add: object_get_def truthy_val_def)
  from parse_command_first_word_unknown [OF cmd ap ne tok na this] show ?thesis .
qed

theorem unknown_first_word_goes_to_all_witness:
  "parse_command toLowerCase_sample (example_config [111, 222] [((str ''john''), 222)] [(222, (str ''john''))]) (str ''tg: Hi everyone'')
     = Command (str ''all'') (str ''Hi everyone'')"
proof -
  let ?cfg = "example_config [111, 222] [((str ''john''), 222)] [(222, (str ''john''))]"
  have cmd: "startsWith (toLowerCase_sample (str ''tg: Hi everyone'')) (toLowerCase_sample (MESSAGE_PREFIX ?cfg))"
    by code_simp
  have ap: "(str ''Hi everyone'') = trim (substring_from (str ''tg: Hi everyone'') (length (MESSAGE_PREFIX ?cfg)))"
    by code_simp
  have ne: "(str ''Hi everyone'') \<noteq> []" by simp
  have tok: "(str ''hi'') = toLowerCase_sample (takeWhile (\<lambda>x. x \<noteq> SPACE) (str ''Hi everyone''))"
    by code_simp
  have na: "(str ''hi'') \<noteq> (str ''all'')" by simp
  have nk: "map_of (FRIEND_TAG_MAP ?cfg) (str ''hi'') = None" by code_simp
  have ni: "(str ''hi'') \<notin> set Object_prototype_names" by code_simp
  from unknown_first_word_goes_to_all [OF cmd ap ne tok na nk ni] show ?thesis .
qed

text \<open>
  The words left out above: the script tests the word with the read
  \<open>FRIEND_TAG_MAP[potentialTag]\<close>, which also finds what an object inherits. With no tag
  configured, the body \<open>tg:constructor hello\<close> is parsed as the tag \<open>constructor\<close> with
  the payload \<open>hello\<close>, the only recipient is the inherited function, and no friend gets
  the message.
\<close>

lemma inherited_name_taken_as_tag:
  "loadConfig toLowerCase_sample (example_env (str ''111'') None) = Inr (example_config [111] [] [])
   \<and> parse_command toLowerCase_sample (example_config [111] [] []) (str ''tg:constructor hello'')
       = Command (str ''constructor'') (str ''hello'')
   \<and> resolve (example_config [111] [] []) (str ''constructor'')
       = Resolved [Inherited (str ''constructor'')] ((str ''friend '') @ [QUOTE] @ (str ''constructor'') @ [QUOTE])
   \<and> fst (handleWhatsAppMessage toLowerCase_sample (example_config [111] [] []) only_identifiers_resolve
            (owner_message (str ''tg:constructor hello'')) 0)
       = [TelegramSend (Inherited (str ''constructor'')) (str ''hello'') False,
          WhatsAppReply (failed_text 1) True]"
proof -
  have "loadConfig toLowerCase_sample (example_env (str ''111'') None) = Inr (example_config [111] [] [])"
    by code_simp
  moreover have "parse_command toLowerCase_sample (example_config [111] [] []) (str ''tg:constructor hello'')
       = Command (str ''constructor'') (str ''hello'')"
    by code_simp
  moreover have "resolve (example_config [111] [] []) (str ''constructor'')
       = Resolved [Inherited (str ''constructor'')] ((str ''friend '') @ [QUOTE] @ (str ''constructor'') @ [QUOTE])"
    by code_simp
  moreover have "fst (handleWhatsAppMessage toLowerCase_sample (example_config [111] [] []) only_identifiers_resolve
            (owner_message (str ''tg:constructor hello'')) 0)
       = [TelegramSend (Inherited (str ''constructor'')) (str ''hello'') False,
          WhatsAppReply (failed_text 1) True]"
    by code_simp
  ultimately show ?thesis by blast
qed

lemma no_message_text_not_usage: "no_message_after_tag_text \<noteq> usage_text cfg"
  by (simp add: no_message_after_tag_text_def usage_text_def warning_sign_def Let_def)

section \<open>A selector without a message\<close>

text \<open>
  Claim C5 says that a remainder equal to \<open>all\<close> or to a known tag, with nothing after it,
  is answered by the error for a selector without a message and reaches nobody. The
  script looks for a tag in the text before the first space only: a tag with a space
  in it, which the tag list can define, is never recognised, and the remainder
  \<open>John Smith\<close> is sent to everyone.
\<close>

theorem tag_with_space_sent_to_all_counterexample:
  "loadConfig toLowerCase_sample (example_env (str ''111'') (Some (str ''john smith:111'')))
     = Inr (example_config [111] [((str ''john smith''), 111)] [(111, (str ''john smith''))])
   \<and> map_of (FRIEND_TAG_MAP (example_config [111] [((str ''john smith''), 111)] [(111, (str ''john smith''))]))
        (toLowerCase_sample (trim (substring_from (str ''tg:John Smith'') 3))) = Some 111
   \<and> fst (handleWhatsAppMessage toLowerCase_sample (example_config [111] [((str ''john smith''), 111)] [(111, (str ''john smith''))])
            all_calls_resolve (owner_message (str ''tg:John Smith'')) 0)
       = [TelegramSend (BigIntVal 111) (str ''John Smith'') True,
          WhatsAppReply (sent_text (str ''all'') 1) True]"
proof -
  have "loadConfig toLowerCase_sample (example_env (str ''111'') (Some (str ''john smith:111'')))
     = Inr (example_config [111] [((str ''john smith''), 111)] [(111, (str ''john smith''))])"
    by code_simp
  moreover have "map_of (FRIEND_TAG_MAP (example_config [111] [((str ''john smith''), 111)] [(111, (str ''john smith''))]))
        (toLowerCase_sample (trim (substring_from (str ''tg:John Smith'') 3))) = Some 111"
    by code_simp
  moreover have "fst (handleWhatsAppMessage toLowerCase_sample (example_config [111] [((str ''john smith''), 111)] [(111, (str ''john smith''))])
            all_calls_resolve (owner_message (str ''tg:John Smith'')) 0)
       = [TelegramSend (BigIntVal 111) (str ''John Smith'') True,
          WhatsAppReply (sent_text (str ''all'') 1) True]"
    by code_simp
  ultimately show ?thesis by blast
qed

text \<open>
  Claim C5 as the script has it: when the trimmed remainder has no space in it and is, in
  lower case, \<open>all\<close> or a tag whose identifier is not zero, the body parses to the error
  for a selector without a message, no send is made, the first call is the reply
  \<open>No message provided after tag.\<close> (the only call when that reply resolves), and this
  text differs from the usage help that answers an empty remainder.
\<close>

theorem selector_alone_is_rejected:
  assumes owner: "msg_fromMe msg \<or> remove_first (msg_from msg) (str ''@c.us'') = YOUR_WHATSAPP_NUMBER cfg"
    and cmd: "startsWith (toLowerCase (msg_body msg)) (toLowerCase (MESSAGE_PREFIX cfg))"
    and ap: "afterPrefix = trim (substring_from (msg_body msg) (length (MESSAGE_PREFIX cfg)))"
    and ne: "afterPrefix \<noteq> []"
    and ns: "SPACE \<notin> set afterPrefix"
    and sel: "toLowerCase afterPrefix = (str ''all'')
              \<or> (\<exists>v. map_of (FRIEND_TAG_MAP cfg) (toLowerCase afterPrefix) = Some v \<and> v \<noteq> 0)"
  shows "parse_command toLowerCase cfg (msg_body msg) = NoMessageAfterTag
         \<and> filter is_send (fst (handleWhatsAppMessage toLowerCase cfg tr msg w)) = []
         \<and> hd (fst (handleWhatsAppMessage toLowerCase cfg tr msg w))
             = WhatsAppReply no_message_after_tag_text (fst (msg_reply tr no_message_after_tag_text w))
         \<and> (fst (msg_reply tr no_message_after_tag_text w)
              \<longrightarrow> fst (handleWhatsAppMessage toLowerCase cfg tr msg w)
                    = [WhatsAppReply no_message_after_tag_text True])
         \<and> no_message_after_tag_text \<noteq> usage_text cfg"
proof -
  from sel have "toLowerCase afterPrefix = (str ''all'')
              \<or> truthy_val (object_get (FRIEND_TAG_MAP cfg) (toLowerCase afterPrefix))"
    by (auto simp: truthy_val_def object_get_def)
  from parse_command_selector_alone [OF cmd ap ne ns this]
  have p: "parse_command toLowerCase cfg (msg_body msg) = NoMessageAfterTag" .
  with try_block_owner [OF owner, where tr = tr and w = w]
  have t: "try_block toLowerCase cfg tr msg w = reply_step tr no_message_after_tag_text w" by simp
  obtain ok w1 where r: "msg_reply tr no_message_after_tag_text w = (ok, w1)"
    by (cases "msg_reply tr no_message_after_tag_text w")
  obtain ok2 w2 where r2: "msg_reply tr error_text w1 = (ok2, w2)"
    by (cases "msg_reply tr error_text w1")
  from t r r2 have h: "fst (handleWhatsAppMessage toLowerCase cfg tr msg w)
      = (if ok then [WhatsAppReply no_message_after_tag_text True]
         else [WhatsAppReply no_message_after_tag_text False, WhatsAppReply error_text ok2])"
    by (simp add: handleWhatsAppMessage_def reply_step_def)
  with p r no_message_text_not_usage show ?thesis by simp
qed

theorem selector_alone_is_rejected_witness:
  "fst (handleWhatsAppMessage toLowerCase_sample (example_config [111, 222] [((str ''john''), 222)] [(222, (str ''john''))])
          all_calls_resolve (owner_message (str ''tg:John '')) 0)
     = [WhatsAppReply no_message_after_tag_text True]
   \<and> no_message_after_tag_text
       \<noteq> usage_text (example_config [111, 222] [((str ''john''), 222)] [(222, (str ''john''))])"
proof -
  let ?cfg = "example_config [111, 222] [((str ''john''), 222)] [(222, (str ''john''))]"
  let ?msg = "owner_message (str ''tg:John '')"
  have owner: "msg_fromMe ?msg \<or> remove_first (msg_from ?msg) (str ''@c.us'') = YOUR_WHATSAPP_NUMBER ?cfg"
    by code_simp
  have cmd: "startsWith (toLowerCase_sample (msg_body ?msg)) (toLowerCase_sample (MESSAGE_PREFIX ?cfg))"
    by code_simp
  have ap: "(str ''John'') = trim (substring_from (msg_body ?msg) (length (MESSAGE_PREFIX ?cfg)))"
    by code_simp
  have ne: "(str ''John'') \<noteq> []" by simp
  have ns: "SPACE \<notin> set (str ''John'')" by simp
  have "map_of (FRIEND_TAG_MAP ?cfg) (toLowerCase_sample (str ''John'')) = Some 222" by code_simp
  then have sel: "toLowerCase_sample (str ''John'') = (str ''all'')
              \<or> (\<exists>v. map_of (FRIEND_TAG_MAP ?cfg) (toLowerCase_sample (str ''John'')) = Some v \<and> v \<noteq> 0)"
    by simp
  have r: "fst (msg_reply all_calls_resolve no_message_after_tag_text 0)"
    by (simp add: all_calls_resolve_def)
  from selector_alone_is_rejected [OF owner cmd ap ne ns sel, where tr = all_calls_resolve and w = 0] r
  show ?thesis by blast
qed

section \<open>The replies to a command\<close>

lemma resolve_nonempty:
  "FRIEND_TELEGRAM_IDS cfg \<noteq> [] \<Longrightarrow> resolve cfg targetTag = Resolved ds desc \<Longrightarrow> ds \<noteq> []"
  by (auto simp: resolve_def split: if_splits option.splits)

lemma handle_events:
  "try_block toLowerCase cfg tr msg w = (ev0, w1, ok) \<Longrightarrow>
     fst (handleWhatsAppMessage toLowerCase cfg tr msg w)
       = ev0 @ (if ok then [] else [WhatsAppReply error_text (fst (msg_reply tr error_text w1))])"
  by (cases "msg_reply tr error_text w1") (simp add: handleWhatsAppMessage_def)

lemma reply_step_shape:
  "reply_step tr t w = ([WhatsAppReply t (fst (msg_reply tr t w))], snd (msg_reply tr t w), fst (msg_reply tr t w))"
  by (cases "msg_reply tr t w") (simp add: reply_step_def)

lemma stop_with_reply_shape:
  assumes "try_block toLowerCase cfg tr msg w = reply_step tr t w"
  shows "\<exists>calls ev. fst (handleWhatsAppMessage toLowerCase cfg tr msg w) = calls @ ev \<and> reply_shape tr calls ev"
proof -
  let ?ok = "fst (msg_reply tr t w)"
  let ?ev = "[WhatsAppReply t ?ok]
       @ (if ?ok then [] else [WhatsAppReply error_text (fst (msg_reply tr error_text (snd (msg_reply tr t w))))])"
  from assms reply_step_shape [of tr t w]
  have "try_block toLowerCase cfg tr msg w = ([WhatsAppReply t ?ok], snd (msg_reply tr t w), ?ok)" by simp
  from handle_events [OF this]
  have "fst (handleWhatsAppMessage toLowerCase cfg tr msg w) = [] @ ?ev" by simp
  moreover have "reply_shape tr [] ?ev" by (simp add: reply_shape_def)
  ultimately show ?thesis by blast
qed

lemma confirm_shape:
  assumes "1 \<le> s + e" and "confirm tr targetTag s e w = (ev, w2, ok)"
  shows "list_all is_reply ev \<and> 1 \<le> length ev \<and> length ev \<le> 2
         \<and> ((\<forall>t v. fst (msg_reply tr t v)) \<longrightarrow>
               ok \<and> length ev = (if 0 < s \<and> 0 < e then 2 else 1))"
proof -
  have a: "list_all is_reply ev \<and> 1 \<le> length ev \<and> length ev \<le> 2"
    using assms
    by (auto simp: confirm_def reply_step_def split: if_splits prod.splits)
  have b: "ok \<and> length ev = (if 0 < s \<and> 0 < e then 2 else 1)"
    if r: "\<forall>t v. fst (msg_reply tr t v)"
  proof -
    from confirm_resolves [OF r, of targetTag s e w] assms
    show ?thesis by auto
  qed
  from a b show ?thesis by blast
qed

lemma command_shape:
  assumes ids: "FRIEND_TELEGRAM_IDS cfg \<noteq> []"
    and res: "resolve cfg targetTag = Resolved ds desc"
    and tb: "try_block toLowerCase cfg tr msg w =
               (case dispatch tr m ds (0, 0, [], w) of
                  (successCount, errorCount, calls, w1) \<Rightarrow>
                    (case confirm tr targetTag successCount errorCount w1 of
                       (ev, w2, ok) \<Rightarrow> (calls @ ev, w2, ok)))"
  shows "\<exists>calls ev. fst (handleWhatsAppMessage toLowerCase cfg tr msg w) = calls @ ev \<and> reply_shape tr calls ev"
proof -
  obtain s e calls w1 where d: "dispatch tr m ds (0, 0, [], w) = (s, e, calls, w1)"
    by (cases "dispatch tr m ds (0, 0, [], w)")
  obtain ev w2 ok where c: "confirm tr targetTag s e w1 = (ev, w2, ok)"
    by (cases "confirm tr targetTag s e w1")
  from dispatch_calls [OF d] have dc: "length calls = length ds"
    "\<forall>c \<in> set calls. \<exists>d ok. c = TelegramSend d m ok"
    "s = length (filter delivered calls)" "e = length (filter failed calls)"
    by auto
  from delivered_or_failed [OF dc(2)] dc resolve_nonempty [OF ids res]
  have "1 \<le> s + e" by (cases ds) simp_all
  from confirm_shape [OF this c] have cs: "list_all is_reply ev" "1 \<le> length ev" "length ev \<le> 2"
    "(\<forall>t v. fst (msg_reply tr t v)) \<longrightarrow> ok \<and> length ev = (if 0 < s \<and> 0 < e then 2 else 1)"
    by auto
  let ?ev = "ev @ (if ok then [] else [WhatsAppReply error_text (fst (msg_reply tr error_text w2))])"
  from tb d c have "try_block toLowerCase cfg tr msg w = (calls @ ev, w2, ok)" by simp
  from handle_events [OF this]
  have h: "fst (handleWhatsAppMessage toLowerCase cfg tr msg w) = calls @ ?ev" by simp
  have sd: "0 < s \<longleftrightarrow> (\<exists>c \<in> set calls. delivered c)"
    using dc(3) by (auto simp: filter_empty_conv)
  have se: "0 < e \<longleftrightarrow> (\<exists>c \<in> set calls. failed c)"
    using dc(4) by (auto simp: filter_empty_conv)
  have "reply_shape tr calls ?ev"
    unfolding reply_shape_def using dc(2) cs sd se by auto
  with h show ?thesis by blast
qed

lemma handle_command_shape:
  assumes ids: "FRIEND_TELEGRAM_IDS cfg \<noteq> []"
    and owner: "msg_fromMe msg \<or> remove_first (msg_from msg) (str ''@c.us'') = YOUR_WHATSAPP_NUMBER cfg"
    and cmd: "startsWith (toLowerCase (msg_body msg)) (toLowerCase (MESSAGE_PREFIX cfg))"
  shows "\<exists>calls ev. fst (handleWhatsAppMessage toLowerCase cfg tr msg w) = calls @ ev \<and> reply_shape tr calls ev"
proof (cases "parse_command toLowerCase cfg (msg_body msg)")
  case NotACommand
  with parse_command_NotACommand [OF cmd] show ?thesis by simp
next
  case EmptyPayload
  with try_block_owner [OF owner, where tr = tr and w = w]
  have "try_block toLowerCase cfg tr msg w = reply_step tr (usage_text cfg) w" by simp
  then show ?thesis by (rule stop_with_reply_shape)
next
  case NoMessageAfterTag
  with try_block_owner [OF owner, where tr = tr and w = w]
  have "try_block toLowerCase cfg tr msg w = reply_step tr no_message_after_tag_text w" by simp
  then show ?thesis by (rule stop_with_reply_shape)
next
  case MessageEmpty
  with try_block_owner [OF owner, where tr = tr and w = w]
  have "try_block toLowerCase cfg tr msg w = reply_step tr message_empty_text w" by simp
  then show ?thesis by (rule stop_with_reply_shape)
next
  case (Command targetTag m)
  show ?thesis
  proof (cases "resolve cfg targetTag")
    case UnknownTag
    with Command try_block_owner [OF owner, where tr = tr and w = w]
    have "try_block toLowerCase cfg tr msg w = reply_step tr (unknown_tag_text cfg targetTag) w" by simp
    then show ?thesis by (rule stop_with_reply_shape)
  next
    case (Resolved ds desc)
    with Command try_block_owner [OF owner, where tr = tr and w = w]
    have "try_block toLowerCase cfg tr msg w =
               (case dispatch tr m ds (0, 0, [], w) of
                  (successCount, errorCount, calls, w1) \<Rightarrow>
                    (case confirm tr targetTag successCount errorCount w1 of
                       (ev, w2, ok) \<Rightarrow> (calls @ ev, w2, ok)))"
      by simp
    from command_shape [OF ids Resolved this] show ?thesis .
  qed
qed

lemma is_reply_not_send: "is_reply c \<Longrightarrow> \<not> delivered c \<and> \<not> failed c"
  by (cases c) simp_all

lemma send_not_reply: "c = TelegramSend d m ok \<Longrightarrow> \<not> is_reply c"
  by simp

text \<open>On a transport that keeps a record, the handler does what it does on the transport
  that is wrapped, and the record is the list of calls that the handler reports.\<close>

lemma dispatch_recorded:
  "dispatch (recorded tr) m ds (0, 0, [], (w, r)) =
     (case dispatch tr m ds (0, 0, [], w) of (s, e, calls, w') \<Rightarrow> (s, e, calls, (w', r @ calls)))"
proof -
  obtain rs w2 where se: "send_each tr m ds w = (rs, w2)"
    by (cases "send_each tr m ds w")
  then have "send_each (recorded tr) m ds (w, r) = (rs, (w2, r @ map (forward_result m) rs))"
    by (simp add: send_each_recorded)
  with se show ?thesis
    by (simp add: dispatch_send_each)
qed

lemma try_block_recorded:
  "try_block toLowerCase cfg (recorded tr) msg (w, r) =
     (case try_block toLowerCase cfg tr msg w of (ev, w', ok) \<Rightarrow> (ev, (w', r @ ev), ok))"
proof (cases "\<not> msg_fromMe msg \<and> remove_first (msg_from msg) (str ''@c.us'') \<noteq> YOUR_WHATSAPP_NUMBER cfg")
  case True
  then show ?thesis by (simp add: try_block_def Let_def)
next
  case False
  then have owner: "msg_fromMe msg \<or> remove_first (msg_from msg) (str ''@c.us'') = YOUR_WHATSAPP_NUMBER cfg"
    by blast
  note tb = try_block_owner [OF owner]
  show ?thesis
  proof (cases "parse_command toLowerCase cfg (msg_body msg)")
    case NotACommand
    then show ?thesis by (simp add: tb)
  next
    case EmptyPayload
    then show ?thesis
      by (cases "reply_step tr (usage_text cfg) w") (simp add: tb reply_step_recorded)
  next
    case NoMessageAfterTag
    then show ?thesis
      by (cases "reply_step tr no_message_after_tag_text w") (simp add: tb reply_step_recorded)
  next
    case MessageEmpty
    then show ?thesis
      by (cases "reply_step tr message_empty_text w") (simp add: tb reply_step_recorded)
  next
    case (Command targetTag m)
    show ?thesis
    proof (cases "resolve cfg targetTag")
      case UnknownTag
      with Command show ?thesis
        by (cases "reply_step tr (unknown_tag_text cfg targetTag) w") (simp add: tb reply_step_recorded)
    next
      case (Resolved ds desc)
      obtain s e calls w1 where d: "dispatch tr m ds (0, 0, [], w) = (s, e, calls, w1)"
        by (cases "dispatch tr m ds (0, 0, [], w)")
      obtain ev w2 ok where c: "confirm tr targetTag s e w1 = (ev, w2, ok)"
        by (cases "confirm tr targetTag s e w1")
      from Command Resolved d c show ?thesis
        by (simp add: tb dispatch_recorded confirm_recorded)
    qed
  qed
qed

lemma msg_reply_recorded:
  "msg_reply (recorded tr) t (w, r) =
     (case msg_reply tr t w of (ok, w') \<Rightarrow> (ok, (w', r @ [WhatsAppReply t ok])))"
  by (simp add: recorded_def)

lemma handle_recorded:
  "handleWhatsAppMessage toLowerCase cfg (recorded tr) msg (w, r) =
     (case handleWhatsAppMessage toLowerCase cfg tr msg w of (ev, w') \<Rightarrow> (ev, (w', r @ ev)))"
proof -
  obtain ev w1 ok where t: "try_block toLowerCase cfg tr msg w = (ev, w1, ok)"
    by (cases "try_block toLowerCase cfg tr msg w")
  obtain ok2 w2 where e: "msg_reply tr error_text w1 = (ok2, w2)"
    by (cases "msg_reply tr error_text w1")
  from t e show ?thesis
    by (cases ok) (simp_all add: handleWhatsAppMessage_def try_block_recorded msg_reply_recorded)
qed

text \<open>What the handler reports on a command when the replies resolve.\<close>

lemma handle_replies_resolve:
  assumes r: "\<forall>t v. fst (msg_reply tr t v)"
    and ids: "FRIEND_TELEGRAM_IDS cfg \<noteq> []"
    and owner: "msg_fromMe msg \<or> remove_first (msg_from msg) (str ''@c.us'') = YOUR_WHATSAPP_NUMBER cfg"
    and ev: "evs = fst (handleWhatsAppMessage toLowerCase cfg tr msg w)"
  shows "evs = filter is_send evs @ filter is_reply evs
         \<and> filter is_reply evs
             = map (\<lambda>t. WhatsAppReply t True)
                 (case parse_command toLowerCase cfg (msg_body msg) of
                    NotACommand \<Rightarrow> []
                  | EmptyPayload \<Rightarrow> [usage_text cfg]
                  | NoMessageAfterTag \<Rightarrow> [no_message_after_tag_text]
                  | MessageEmpty \<Rightarrow> [message_empty_text]
                  | Command targetTag m \<Rightarrow>
                      (case resolve cfg targetTag of
                         UnknownTag \<Rightarrow> [unknown_tag_text cfg targetTag]
                       | Resolved ds desc \<Rightarrow>
                           (if 0 < length (filter delivered evs)
                            then [sent_text targetTag (length (filter delivered evs))] else [])
                           @ (if 0 < length (filter failed evs)
                              then [failed_text (length (filter failed evs))] else [])))"
proof -
  note tb = try_block_owner [OF owner, where tr = tr and w = w and toLowerCase = toLowerCase]
  have stop: "evs = [WhatsAppReply t True]"
    if "try_block toLowerCase cfg tr msg w = reply_step tr t w" for t
  proof -
    from that reply_step_resolves [OF r, of t w]
    have "try_block toLowerCase cfg tr msg w = ([WhatsAppReply t True], snd (msg_reply tr t w), True)"
      by simp
    from handle_events [OF this] ev show ?thesis by simp
  qed
  show ?thesis
  proof (cases "parse_command toLowerCase cfg (msg_body msg)")
    case NotACommand
    with ev show ?thesis by (simp add: handle_not_a_command)
  next
    case EmptyPayload
    with tb have "try_block toLowerCase cfg tr msg w = reply_step tr (usage_text cfg) w" by simp
    from stop [OF this] EmptyPayload show ?thesis by simp
  next
    case NoMessageAfterTag
    with tb have "try_block toLowerCase cfg tr msg w = reply_step tr no_message_after_tag_text w"
      by simp
    from stop [OF this] NoMessageAfterTag show ?thesis by simp
  next
    case MessageEmpty
    with tb have "try_block toLowerCase cfg tr msg w = reply_step tr message_empty_text w" by simp
    from stop [OF this] MessageEmpty show ?thesis by simp
  next
    case (Command targetTag m)
    show ?thesis
    proof (cases "resolve cfg targetTag")
      case UnknownTag
      with Command tb
      have "try_block toLowerCase cfg tr msg w = reply_step tr (unknown_tag_text cfg targetTag) w"
        by simp
      from stop [OF this] Command UnknownTag show ?thesis by simp
    next
      case (Resolved ds desc)
      obtain s e calls w1 where d: "dispatch tr m ds (0, 0, [], w) = (s, e, calls, w1)"
        by (cases "dispatch tr m ds (0, 0, [], w)")
      obtain rep w2 ok where c: "confirm tr targetTag s e w1 = (rep, w2, ok)"
        by (cases "confirm tr targetTag s e w1")
      from confirm_resolves [OF r, of targetTag s e w1] c
      have rep: "rep = (if s > 0 then [WhatsAppReply (sent_text targetTag s) True] else [])
             @ (if e > 0 then [WhatsAppReply (failed_text e) True] else [])" and ok: ok
        by simp_all
      from dispatch_calls [OF d] have dc:
        "\<forall>c \<in> set calls. \<exists>d ok. c = TelegramSend d m ok"
        "s = length (filter delivered calls)" "e = length (filter failed calls)"
        by auto
      from Command Resolved tb d c ok
      have "try_block toLowerCase cfg tr msg w = (calls @ rep, w2, True)" by simp
      from handle_events [OF this] ev have evs: "evs = calls @ rep" by simp
      from dc(1) have f1: "filter is_reply calls = []" "filter is_send calls = calls"
        by (auto simp: filter_empty_conv filter_id_conv)
      from rep have f2: "filter is_reply rep = rep" "filter is_send rep = []"
        "filter delivered rep = []" "filter failed rep = []"
        by auto
      from evs f1 f2 dc have cnt: "length (filter delivered evs) = s" "length (filter failed evs) = e"
        by simp_all
      from evs f1 f2 have "evs = filter is_send evs @ filter is_reply evs" by simp
      moreover from evs f1 f2 have "filter is_reply evs = rep" by simp
      ultimately show ?thesis using Command Resolved rep cnt by auto
    qed
  qed
qed

text \<open>
  Claim C2 says that a command is answered by exactly one reply. The confirmation is two
  independent tests, one for the successes and one for the failures: when the send to
  one of two friends rejects, the transport receives the success summary and then the
  failure summary.
\<close>

theorem two_replies_on_partial_failure_counterexample:
  "loadConfig toLowerCase_sample (example_env (str ''111,222'') None)
     = Inr (example_config [111, 222] [] [])
   \<and> snd (snd (handleWhatsAppMessage toLowerCase_sample (example_config [111, 222] [] [])
                 (recorded second_send_rejects) (owner_message (str ''tg: hello'')) (0, [])))
       = [TelegramSend (BigIntVal 111) (str ''hello'') True,
          TelegramSend (BigIntVal 222) (str ''hello'') False,
          WhatsAppReply (sent_text (str ''all'') 1) True,
          WhatsAppReply (failed_text 1) True]"
proof -
  have "loadConfig toLowerCase_sample (example_env (str ''111,222'') None)
     = Inr (example_config [111, 222] [] [])"
    by code_simp
  moreover have "snd (snd (handleWhatsAppMessage toLowerCase_sample (example_config [111, 222] [] [])
                 (recorded second_send_rejects) (owner_message (str ''tg: hello'')) (0, [])))
       = [TelegramSend (BigIntVal 111) (str ''hello'') True,
          TelegramSend (BigIntVal 222) (str ''hello'') False,
          WhatsAppReply (sent_text (str ''all'') 1) True,
          WhatsAppReply (failed_text 1) True]"
    by code_simp
  ultimately show ?thesis by blast
qed

text \<open>
  Claim C2 as the script has it, for one run of the handler on a transport that keeps a
  record, with at least one friend configured and an owner message that starts with the
  prefix: the transport receives the sends first and then at least one and at most
  three reply calls. When the reply calls resolve, it receives exactly one reply (the
  usage help, an error text, the success summary or the failure summary), except after
  a dispatch in which some sends resolve and some reject, which is answered by the
  success summary followed by the failure summary; the summaries carry the numbers of
  sends that resolved and that rejected. The handler is registered on two events: it
  runs once for a message that the client emits as \<open>message_create\<close> only, and twice,
  answering twice, for a message emitted as \<open>message_create\<close> and as \<open>message\<close>.
\<close>

theorem replies_to_a_command:
  assumes ids: "FRIEND_TELEGRAM_IDS cfg \<noteq> []"
    and owner: "msg_fromMe msg \<or> remove_first (msg_from msg) (str ''@c.us'') = YOUR_WHATSAPP_NUMBER cfg"
    and cmd: "startsWith (toLowerCase (msg_body msg)) (toLowerCase (MESSAGE_PREFIX cfg))"
    and run: "handleWhatsAppMessage toLowerCase cfg (recorded tr) msg (w, []) = (evs, (w', received))"
  shows "evs = received
         \<and> 1 \<le> length (filter is_reply received)
         \<and> length (filter is_reply received) \<le> 3
         \<and> ((\<forall>t v. fst (msg_reply tr t v)) \<longrightarrow>
              received = filter is_send received @ filter is_reply received
              \<and> filter is_reply received
                  = map (\<lambda>t. WhatsAppReply t True)
                      (case parse_command toLowerCase cfg (msg_body msg) of
                         NotACommand \<Rightarrow> []
                       | EmptyPayload \<Rightarrow> [usage_text cfg]
                       | NoMessageAfterTag \<Rightarrow> [no_message_after_tag_text]
                       | MessageEmpty \<Rightarrow> [message_empty_text]
                       | Command targetTag m \<Rightarrow>
                           (case resolve cfg targetTag of
                              UnknownTag \<Rightarrow> [unknown_tag_text cfg targetTag]
                            | Resolved ds desc \<Rightarrow>
                                (if 0 < length (filter delivered received)
                                 then [sent_text targetTag (length (filter delivered received))]
                                 else [])
                                @ (if 0 < length (filter failed received)
                                   then [failed_text (length (filter failed received))]
                                   else [])))
              \<and> length (filter is_reply received)
                  = (if (\<exists>c \<in> set received. delivered c) \<and> (\<exists>c \<in> set received. failed c)
                     then 2 else 1))
         \<and> handler_runs [Ev_message_create] = 1
         \<and> handler_runs [Ev_message_create, Ev_message] = 2"
proof -
  obtain ev0 w0 where h: "handleWhatsAppMessage toLowerCase cfg tr msg w = (ev0, w0)"
    by (cases "handleWhatsAppMessage toLowerCase cfg tr msg w")
  with handle_recorded [of toLowerCase cfg tr msg w "[]"]
  have "handleWhatsAppMessage toLowerCase cfg (recorded tr) msg (w, []) = (ev0, (w0, ev0))"
    by simp
  with run have "(evs, (w', received)) = (ev0, (w0, ev0))" by (simp only:)
  then have e: "evs = ev0" "received = ev0" by (simp_all only: prod.inject)
  from h have f: "ev0 = fst (handleWhatsAppMessage toLowerCase cfg tr msg w)" by simp
  from handle_command_shape [OF ids owner cmd, where tr = tr and w = w] f obtain calls ev
    where c: "ev0 = calls @ ev" and sh: "reply_shape tr calls ev"
    by auto
  from sh have cs: "\<forall>c \<in> set calls. \<exists>d m ok. c = TelegramSend d m ok"
    and er: "list_all is_reply ev" and l: "1 \<le> length ev" "length ev \<le> 3"
    and rr: "(\<forall>t v. fst (msg_reply tr t v)) \<longrightarrow>
           length ev = (if (\<exists>c \<in> set calls. delivered c) \<and> (\<exists>c \<in> set calls. failed c)
                        then 2 else 1)"
    by (simp_all add: reply_shape_def)
  from cs have "filter is_reply calls = []" by (auto simp: filter_empty_conv)
  moreover from er have "filter is_reply ev = ev" by (simp add: list_all_iff)
  ultimately have fr: "filter is_reply ev0 = ev" using c by simp
  from er have "\<forall>x \<in> set ev. \<not> delivered x \<and> \<not> failed x"
    using is_reply_not_send by (auto simp: list_all_iff)
  with c have d: "(\<exists>c \<in> set ev0. delivered c) = (\<exists>c \<in> set calls. delivered c)"
    "(\<exists>c \<in> set ev0. failed c) = (\<exists>c \<in> set calls. failed c)"
    by auto
  have wiring: "handler_runs [Ev_message_create] = 1" "handler_runs [Ev_message_create, Ev_message] = 2"
    by (simp_all add: handler_runs_def handleWhatsAppMessage_events_def)
  from e f have rf: "received = fst (handleWhatsAppMessage toLowerCase cfg tr msg w)" by simp
  have texts: "received = filter is_send received @ filter is_reply received
              \<and> filter is_reply received
                  = map (\<lambda>t. WhatsAppReply t True)
                      (case parse_command toLowerCase cfg (msg_body msg) of
                         NotACommand \<Rightarrow> []
                       | EmptyPayload \<Rightarrow> [usage_text cfg]
                       | NoMessageAfterTag \<Rightarrow> [no_message_after_tag_text]
                       | MessageEmpty \<Rightarrow> [message_empty_text]
                       | Command targetTag m \<Rightarrow>
                           (case resolve cfg targetTag of
                              UnknownTag \<Rightarrow> [unknown_tag_text cfg targetTag]
                            | Resolved ds desc \<Rightarrow>
                                (if 0 < length (filter delivered received)
                                 then [sent_text targetTag (length (filter delivered received))]
                                 else [])
                                @ (if 0 < length (filter failed received)
                                   then [failed_text (length (filter failed received))]
                                   else [])))"
    if r: "\<forall>t v. fst (msg_reply tr t v)"
    using handle_replies_resolve [OF r ids owner rf] .
  have A: "evs = received" using e by simp
  from e fr l have B: "1 \<le> length (filter is_reply received)"
    "length (filter is_reply received) \<le> 3"
    by simp_all
  have C: "length (filter is_reply received)
                  = (if (\<exists>c \<in> set received. delivered c) \<and> (\<exists>c \<in> set received. failed c)
                     then 2 else 1)"
    if r: "\<forall>t v. fst (msg_reply tr t v)"
    using r rr d fr e by simp
  from A B texts C wiring show ?thesis by blast
qed

theorem replies_to_a_command_witness:
  "FRIEND_TELEGRAM_IDS (example_config [111, 222] [] []) \<noteq> []
   \<and> (\<forall>t v. fst (msg_reply second_send_rejects t v))
   \<and> filter is_reply
        (snd (snd (handleWhatsAppMessage toLowerCase_sample (example_config [111, 222] [] [])
                     (recorded second_send_rejects) (owner_message (str ''tg: hello'')) (0, []))))
       = [WhatsAppReply (sent_text (str ''all'') 1) True, WhatsAppReply (failed_text 1) True]"
proof -
  let ?cfg = "example_config [111, 222] [] []"
  let ?msg = "owner_message (str ''tg: hello'')"
  let ?rec = "[TelegramSend (BigIntVal 111) (str ''hello'') True,
          TelegramSend (BigIntVal 222) (str ''hello'') False,
          WhatsAppReply (sent_text (str ''all'') 1) True,
          WhatsAppReply (failed_text 1) True]"
  have ids: "FRIEND_TELEGRAM_IDS ?cfg \<noteq> []" by (simp add: example_config_def)
  have owner: "msg_fromMe ?msg \<or> remove_first (msg_from ?msg) (str ''@c.us'') = YOUR_WHATSAPP_NUMBER ?cfg"
    by (simp add: owner_message_def)
  have cmd: "startsWith (toLowerCase_sample (msg_body ?msg)) (toLowerCase_sample (MESSAGE_PREFIX ?cfg))"
    by code_simp
  have r: "\<forall>t v. fst (msg_reply second_send_rejects t v)"
    by (simp add: second_send_rejects_def)
  have run: "handleWhatsAppMessage toLowerCase_sample ?cfg (recorded second_send_rejects) ?msg (0, [])
       = (?rec, (4, ?rec))"
    by code_simp
  have p: "parse_command toLowerCase_sample ?cfg (msg_body ?msg) = Command (str ''all'') (str ''hello'')"
    by code_simp
  have q: "resolve ?cfg (str ''all'') = Resolved [BigIntVal 111, BigIntVal 222] (str ''all friends'')"
    by code_simp
  from replies_to_a_command [OF ids owner cmd run] r
  have "filter is_reply ?rec
                  = map (\<lambda>t. WhatsAppReply t True)
                      (case parse_command toLowerCase_sample ?cfg (msg_body ?msg) of
                         NotACommand \<Rightarrow> []
                       | EmptyPayload \<Rightarrow> [usage_text ?cfg]
                       | NoMessageAfterTag \<Rightarrow> [no_message_after_tag_text]
                       | MessageEmpty \<Rightarrow> [message_empty_text]
                       | Command targetTag m \<Rightarrow>
                           (case resolve ?cfg targetTag of
                              UnknownTag \<Rightarrow> [unknown_tag_text ?cfg targetTag]
                            | Resolved ds desc \<Rightarrow>
                                (if 0 < length (filter delivered ?rec)
                                 then [sent_text targetTag (length (filter delivered ?rec))]
                                 else [])
                                @ (if 0 < length (filter failed ?rec)
                                   then [failed_text (length (filter failed ?rec))]
                                   else [])))"
    by blast
  then have "filter is_reply ?rec
      = [WhatsAppReply (sent_text (str ''all'') 1) True, WhatsAppReply (failed_text 1) True]"
    by (simp add: p q)
  with ids r run show ?thesis by simp
qed

section \<open>The inbound filter\<close>





end
